theory Spec2Isabelle
  imports Main "HOL-Library.Word" "HOL-Library.Sublist"
begin

unbundle bit_operations_syntax

section \<open>WinsyncLoader: the launcher of WinsyncLoader.cpp\<close>

text \<open>
  The launcher is one source file, \<^verbatim>\<open>WinsyncLoader.cpp\<close>: \<^verbatim>\<open>_tWinMain\<close> calls
  \<^verbatim>\<open>find_winsync\<close>, builds a command line, starts the interpreter and waits for it;
  \<^verbatim>\<open>error_exit\<close>, \<^verbatim>\<open>error_code_exit\<close> and \<^verbatim>\<open>msg_exit\<close> show a message box and end the
  process. Everything the file does goes through the Windows API and the secure C runtime
  string functions. The embedding below runs the program against an environment (the
  registry, the file system, process creation) and yields the list of calls made, in order,
  together with the way the run ended.
\<close>

subsection \<open>Constants of the Windows headers\<close>

text \<open>
  The headers are not part of the sources; the values are those of the Windows SDK
  (\<^verbatim>\<open>windef.h\<close>, \<^verbatim>\<open>winerror.h\<close>, \<^verbatim>\<open>winnt.h\<close>, \<^verbatim>\<open>winbase.h\<close>).
\<close>

type_synonym dword = "32 word"
type_synonym handle = nat

definition MAX_PATH :: nat where "MAX_PATH = 260"

definition ERROR_SUCCESS :: dword where "ERROR_SUCCESS = 0"
definition ERROR_MORE_DATA :: dword where "ERROR_MORE_DATA = 234"
definition ERROR_NO_MORE_ITEMS :: dword where "ERROR_NO_MORE_ITEMS = 259"
definition INVALID_FILE_ATTRIBUTES :: dword where "INVALID_FILE_ATTRIBUTES = 0xFFFFFFFF"

definition WAIT_OBJECT_0 :: dword where "WAIT_OBJECT_0 = 0"
definition WAIT_ABANDONED :: dword where "WAIT_ABANDONED = 0x80"
definition WAIT_TIMEOUT :: dword where "WAIT_TIMEOUT = 0x102"
definition WAIT_FAILED :: dword where "WAIT_FAILED = 0xFFFFFFFF"
definition INFINITE :: dword where "INFINITE = 0xFFFFFFFF"

definition KEY_QUERY_VALUE :: dword where "KEY_QUERY_VALUE = 0x0001"
definition KEY_ENUMERATE_SUB_KEYS :: dword where "KEY_ENUMERATE_SUB_KEYS = 0x0008"
definition KEY_NOTIFY :: dword where "KEY_NOTIFY = 0x0010"
definition READ_CONTROL :: dword where "READ_CONTROL = 0x00020000"

definition KEY_READ :: dword where
  "KEY_READ = READ_CONTROL OR KEY_QUERY_VALUE OR KEY_ENUMERATE_SUB_KEYS OR KEY_NOTIFY"

abbreviation (input) backslash :: char where "backslash \<equiv> CHR 0x5C"

subsection \<open>The environment\<close>

text \<open>
  A registry key as the launcher sees it: the names \<^verbatim>\<open>RegEnumKeyEx\<close> yields, in
  enumeration order; the code the enumeration ends with (\<open>enum_fault\<close>:
  \<^verbatim>\<open>ERROR_SUCCESS\<close> stands for no fault, the enumeration then ends with
  \<^verbatim>\<open>ERROR_NO_MORE_ITEMS\<close>); and, for a subkey path below the key, the code of reading its
  default value together with the string stored (read only when the code is
  \<^verbatim>\<open>ERROR_SUCCESS\<close>).
\<close>

record registry_key =
  subkeys :: "string list"
  enum_fault :: dword
  default_value :: "string \<Rightarrow> dword \<times> string"

text \<open>
  \<^verbatim>\<open>TCHAR\<close> is \<^verbatim>\<open>char\<close> or \<^verbatim>\<open>wchar_t\<close> by the project's character set, which
  \<^verbatim>\<open>stdafx.h\<close> and the project file decide; neither is part of the sources, so the
  character set is a parameter.
\<close>

datatype charset = MultiByte | Unicode

fun sizeof_TCHAR :: "charset \<Rightarrow> nat" where
  "sizeof_TCHAR MultiByte = 1"
| "sizeof_TCHAR Unicode = 2"

text \<open>
  What lies outside the source file. \<open>hklm\<close> is \<^verbatim>\<open>RegOpenKeyEx\<close> on
  \<^verbatim>\<open>HKEY_LOCAL_MACHINE\<close>: the return code and the key opened. \<open>file_attributes\<close> is
  \<^verbatim>\<open>GetFileAttributes\<close>. \<open>system_message\<close> is the text \<^verbatim>\<open>FormatMessage\<close> has for
  an error code. \<open>create_process\<close> takes the command line and the working directory and
  gives the handles of the process and of its thread, or, with \<open>Inl\<close>, the code
  \<^verbatim>\<open>GetLastError\<close> reports after the failure. \<open>wait_for_single_object\<close> gives the
  return value and the last-error code; \<open>close_handle\<close> gives \<open>Some\<close> last-error code
  when \<^verbatim>\<open>CloseHandle\<close> fails.
\<close>

record env =
  charset :: charset
  hklm :: "string \<Rightarrow> dword \<times> registry_key"
  file_attributes :: "string \<Rightarrow> dword"
  system_message :: "dword \<Rightarrow> string"
  create_process :: "string \<Rightarrow> string \<Rightarrow> dword + handle \<times> handle"
  wait_for_single_object :: "handle \<Rightarrow> dword \<Rightarrow> dword \<times> dword"
  close_handle :: "handle \<Rightarrow> dword option"

subsection \<open>Calls and runs\<close>

text \<open>
  One constructor for each call of the source file that reads the registry or the file
  system, creates, awaits or closes the child process, shows the message box, ends the
  process, or writes one of the \<^verbatim>\<open>MAX_PATH\<close> buffers, with the arguments the source
  passes and what came back. The remaining calls of the source work on the memory of the
  process only and are part of the functions that make them, without a constructor:
  \<^verbatim>\<open>_tcstok_s\<close> in \<^verbatim>\<open>find_winsync\<close>, \<^verbatim>\<open>SecureZeroMemory\<close> in \<^verbatim>\<open>_tWinMain\<close>,
  \<^verbatim>\<open>GetLastError\<close> in \<^verbatim>\<open>error_exit\<close>, and \<^verbatim>\<open>FormatMessage\<close>, \<^verbatim>\<open>LocalAlloc\<close>,
  \<^verbatim>\<open>LocalSize\<close>, \<^verbatim>\<open>lstrlen\<close>, \<^verbatim>\<open>StringCchPrintf\<close> and \<^verbatim>\<open>LocalFree\<close> in
  \<^verbatim>\<open>error_code_exit\<close>. \<^verbatim>\<open>is_64_bit_windows\<close> is defined in the source and called
  nowhere.
  \<^item> \<open>Call_RegOpenKeyEx\<close>: \<^verbatim>\<open>lpSubKey\<close>, \<^verbatim>\<open>samDesired\<close>, return code;
  \<^item> \<open>Call_RegEnumKeyEx\<close>: \<^verbatim>\<open>dwIndex\<close>, the capacity offered in \<^verbatim>\<open>*lpcchName\<close>,
    return code, name stored;
  \<^item> \<open>Call_RegGetValue\<close>: \<^verbatim>\<open>lpSubKey\<close>, the capacity offered in \<^verbatim>\<open>*pcbData\<close>,
    return code, string stored;
  \<^item> \<open>Call_GetFileAttributes\<close>: path, return value;
  \<^item> \<open>Call_CreateProcess\<close>: \<^verbatim>\<open>lpCommandLine\<close>, \<^verbatim>\<open>lpCurrentDirectory\<close>, result;
  \<^item> \<open>Call_WaitForSingleObject\<close>: handle, \<^verbatim>\<open>dwMilliseconds\<close>, return value,
    last-error code;
  \<^item> \<open>Call_CloseHandle\<close>: handle, \<open>Some\<close> last-error code on failure;
  \<^item> \<open>Call_MessageBox\<close>: text, caption; \<open>Call_ExitProcess\<close>: exit status;
  \<^item> \<open>Call_tcscpy_s\<close>: capacity, source, whether it fitted;
  \<^item> \<open>Call_tcscat_s\<close>: capacity, destination contents, source, whether it fitted.
\<close>

datatype call =
    Call_RegOpenKeyEx string dword dword
  | Call_RegEnumKeyEx nat nat dword string
  | Call_RegGetValue string nat dword string
  | Call_GetFileAttributes string dword
  | Call_CreateProcess string string "dword + handle \<times> handle"
  | Call_WaitForSingleObject handle dword dword dword
  | Call_CloseHandle handle "dword option"
  | Call_MessageBox string string
  | Call_ExitProcess dword
  | Call_tcscpy_s nat string bool
  | Call_tcscat_s nat string string bool

text \<open>
  A piece of the program either goes on with a value, or has ended the process through
  \<^verbatim>\<open>ExitProcess\<close>, or has ended it in the invalid-parameter handler of the C runtime
  (the source installs no handler of its own, and the default one terminates the process).
\<close>

datatype 'a outcome = Returned 'a | Exited dword | Invalid_parameter

type_synonym 'a run = "call list \<times> 'a outcome"

definition done_with :: "'a \<Rightarrow> 'a run" where
  "done_with x = ([], Returned x)"

definition logged :: "call \<Rightarrow> 'a \<Rightarrow> 'a run" where
  "logged c x = ([c], Returned x)"

definition andthen :: "'a run \<Rightarrow> ('a \<Rightarrow> 'b run) \<Rightarrow> 'b run" where
  "andthen m f =
     (case snd m of
        Returned x \<Rightarrow> (fst m @ fst (f x), snd (f x))
      | Exited c \<Rightarrow> (fst m, Exited c)
      | Invalid_parameter \<Rightarrow> (fst m, Invalid_parameter))"

lemma andthen_cong [fundef_cong]:
  "m = m' \<Longrightarrow> (\<And>x. snd m' = Returned x \<Longrightarrow> f x = f' x) \<Longrightarrow> andthen m f = andthen m' f'"
  by (auto simp: andthen_def split: outcome.splits)

subsection \<open>The secure string functions\<close>

text \<open>
  \<^verbatim>\<open>_tcscpy_s(dst, n, src)\<close> and \<^verbatim>\<open>_tcscat_s(dst, n, src)\<close> store the result with its
  terminating null when it fits in \<open>n\<close> characters, and invoke the invalid-parameter
  handler otherwise. The functions yield the new contents of \<open>dst\<close>.
\<close>

definition tcscpy_s :: "nat \<Rightarrow> string \<Rightarrow> string run" where
  "tcscpy_s n src =
     (if length src < n then logged (Call_tcscpy_s n src True) src
      else ([Call_tcscpy_s n src False], Invalid_parameter))"

definition tcscat_s :: "nat \<Rightarrow> string \<Rightarrow> string \<Rightarrow> string run" where
  "tcscat_s n dst src =
     (if length dst + length src < n then logged (Call_tcscat_s n dst src True) (dst @ src)
      else ([Call_tcscat_s n dst src False], Invalid_parameter))"

text \<open>
  \<^verbatim>\<open>_tcstok_s\<close> with the delimiter \<^verbatim>\<open>";"\<close>, from the rest of the string still to be
  scanned (the context): skip delimiters, then the token runs to the next delimiter, and
  the new context starts behind that delimiter. \<open>None\<close> is the null pointer.
\<close>

definition tcstok_s :: "string \<Rightarrow> (string \<times> string) option" where
  "tcstok_s context =
     (let s = dropWhile (\<lambda>c. c = CHR '';'') context
      in if s = [] then None
         else Some (takeWhile (\<lambda>c. c \<noteq> CHR '';'') s,
                    drop 1 (dropWhile (\<lambda>c. c \<noteq> CHR '';'') s)))"

lemma tcstok_s_shorter:
  assumes "tcstok_s context = Some (token, context')"
  shows "length context' < length context"
proof -
  define s where "s = dropWhile (\<lambda>c. c = CHR '';'') context"
  from assms have ne: "s \<noteq> []"
    and c': "context' = drop 1 (dropWhile (\<lambda>c. c \<noteq> CHR '';'') s)"
    by (simp_all add: tcstok_s_def s_def Let_def split: if_splits)
  have "length (dropWhile (\<lambda>c. c \<noteq> CHR '';'') s) \<le> length s"
    by (rule length_dropWhile_le)
  moreover have "length s \<le> length context"
    unfolding s_def by (rule length_dropWhile_le)
  moreover have "0 < length s" using ne by simp
  moreover have "length context' = length (dropWhile (\<lambda>c. c \<noteq> CHR '';'') s) - 1"
    unfolding c' by simp
  ultimately show ?thesis by arith
qed

subsection \<open>The Windows calls\<close>

text \<open>
  For the registry calls, first what the system answers, then the call as the program
  makes it, which adds it to the list of calls.

  \<^verbatim>\<open>RegEnumKeyEx\<close> answers with the name at the index when there is one and it fits,
  with its terminating null, in the capacity offered; with \<^verbatim>\<open>ERROR_MORE_DATA\<close> when it
  does not fit; past the last name with \<^verbatim>\<open>ERROR_NO_MORE_ITEMS\<close>, or with the fault of
  the key.
\<close>

definition enum_key :: "registry_key \<Rightarrow> nat \<Rightarrow> nat \<Rightarrow> dword \<times> string" where
  "enum_key root dwIndex cchName =
     (if dwIndex < length (subkeys root) then
        (if length (subkeys root ! dwIndex) < cchName
         then (ERROR_SUCCESS, subkeys root ! dwIndex) else (ERROR_MORE_DATA, []))
      else if enum_fault root = ERROR_SUCCESS then (ERROR_NO_MORE_ITEMS, [])
      else (enum_fault root, []))"

text \<open>
  \<^verbatim>\<open>RegGetValue\<close> of the default value of a subkey, as a string
  (\<^verbatim>\<open>RRF_RT_REG_SZ\<close>): \<^verbatim>\<open>*pcbData\<close> is the capacity in bytes on entry. When the string
  with its terminating null fits, it is stored and \<^verbatim>\<open>*pcbData\<close> becomes the number of
  bytes stored; when it does not, the call returns \<^verbatim>\<open>ERROR_MORE_DATA\<close> and
  \<^verbatim>\<open>*pcbData\<close> becomes the number of bytes needed; a read that fails for another reason
  leaves \<^verbatim>\<open>*pcbData\<close> as it was. The answer is the return code, the string stored and
  the new \<^verbatim>\<open>*pcbData\<close>.
\<close>

definition get_value :: "charset \<Rightarrow> registry_key \<Rightarrow> string \<Rightarrow> nat \<Rightarrow> dword \<times> string \<times> nat" where
  "get_value cs root lpSubKey cbData =
     (if fst (default_value root lpSubKey) \<noteq> ERROR_SUCCESS
      then (fst (default_value root lpSubKey), [], cbData)
      else if (length (snd (default_value root lpSubKey)) + 1) * sizeof_TCHAR cs \<le> cbData
      then (ERROR_SUCCESS, snd (default_value root lpSubKey),
            (length (snd (default_value root lpSubKey)) + 1) * sizeof_TCHAR cs)
      else (ERROR_MORE_DATA, [],
            (length (snd (default_value root lpSubKey)) + 1) * sizeof_TCHAR cs))"

definition RegOpenKeyEx :: "env \<Rightarrow> string \<Rightarrow> dword \<Rightarrow> (dword \<times> registry_key) run" where
  "RegOpenKeyEx e lpSubKey samDesired =
     logged (Call_RegOpenKeyEx lpSubKey samDesired (fst (hklm e lpSubKey))) (hklm e lpSubKey)"

definition RegEnumKeyEx :: "registry_key \<Rightarrow> nat \<Rightarrow> nat \<Rightarrow> (dword \<times> string) run" where
  "RegEnumKeyEx root dwIndex cchName =
     logged (Call_RegEnumKeyEx dwIndex cchName (fst (enum_key root dwIndex cchName))
               (snd (enum_key root dwIndex cchName)))
       (enum_key root dwIndex cchName)"

definition RegGetValue ::
  "env \<Rightarrow> registry_key \<Rightarrow> string \<Rightarrow> nat \<Rightarrow> (dword \<times> string \<times> nat) run" where
  "RegGetValue e root lpSubKey cbData =
     logged (Call_RegGetValue lpSubKey cbData (fst (get_value (charset e) root lpSubKey cbData))
               (fst (snd (get_value (charset e) root lpSubKey cbData))))
       (get_value (charset e) root lpSubKey cbData)"

definition GetFileAttributes :: "env \<Rightarrow> string \<Rightarrow> dword run" where
  "GetFileAttributes e lpFileName =
     logged (Call_GetFileAttributes lpFileName (file_attributes e lpFileName))
       (file_attributes e lpFileName)"

definition CreateProcess :: "env \<Rightarrow> string \<Rightarrow> string \<Rightarrow> (dword + handle \<times> handle) run" where
  "CreateProcess e lpCommandLine lpCurrentDirectory =
     logged (Call_CreateProcess lpCommandLine lpCurrentDirectory
               (create_process e lpCommandLine lpCurrentDirectory))
       (create_process e lpCommandLine lpCurrentDirectory)"

definition WaitForSingleObject :: "env \<Rightarrow> handle \<Rightarrow> dword \<Rightarrow> (dword \<times> dword) run" where
  "WaitForSingleObject e hHandle dwMilliseconds =
     logged (Call_WaitForSingleObject hHandle dwMilliseconds
               (fst (wait_for_single_object e hHandle dwMilliseconds))
               (snd (wait_for_single_object e hHandle dwMilliseconds)))
       (wait_for_single_object e hHandle dwMilliseconds)"

definition CloseHandle :: "env \<Rightarrow> handle \<Rightarrow> dword option run" where
  "CloseHandle e hObject =
     logged (Call_CloseHandle hObject (close_handle e hObject)) (close_handle e hObject)"

subsection \<open>\<^verbatim>\<open>error_code_exit\<close>, \<^verbatim>\<open>error_exit\<close>, \<^verbatim>\<open>msg_exit\<close>\<close>

text \<open>The \<^verbatim>\<open>%d\<close> of \<^verbatim>\<open>StringCchPrintf\<close>: the code as a signed decimal number.\<close>

fun decimal :: "nat \<Rightarrow> string" where
  "decimal n =
     (if n < 10 then [''0123456789'' ! n]
      else decimal (n div 10) @ [''0123456789'' ! (n mod 10)])"

declare decimal.simps [simp del]

definition printf_d :: "dword \<Rightarrow> string" where
  "printf_d w =
     (if sint w < 0 then CHR ''-'' # decimal (nat (- sint w)) else decimal (nat (sint w)))"

text \<open>
  \<^verbatim>\<open>error_code_exit\<close> formats \<^verbatim>\<open>"%s failed with error %d: %s"\<close> from the name of
  the function, the code and the system's message for the code, shows it and calls
  \<^verbatim>\<open>ExitProcess(error_code)\<close>.
\<close>

definition error_code_exit :: "env \<Rightarrow> string \<Rightarrow> dword \<Rightarrow> 'a run" where
  "error_code_exit e lpszFunction error_code =
     ([Call_MessageBox
         (lpszFunction @ '' failed with error '' @ printf_d error_code @ '': ''
            @ system_message e error_code) ''Error'',
       Call_ExitProcess error_code],
      Exited error_code)"

text \<open>
  \<^verbatim>\<open>error_exit\<close> is \<^verbatim>\<open>error_code_exit(lpszFunction, GetLastError())\<close>; the code
  \<^verbatim>\<open>GetLastError\<close> reports is the one the failing call left, which the caller hands on.
\<close>

definition error_exit :: "env \<Rightarrow> string \<Rightarrow> dword \<Rightarrow> 'a run" where
  "error_exit e lpszFunction last_error = error_code_exit e lpszFunction last_error"

definition msg_exit :: "string \<Rightarrow> 'a run" where
  "msg_exit msg = ([Call_MessageBox msg ''ERROR'', Call_ExitProcess 255], Exited 255)"

subsection \<open>\<^verbatim>\<open>find_winsync\<close>\<close>

text \<open>
  The string literals of \<^verbatim>\<open>find_winsync\<close>: \<^verbatim>\<open>"\\PythonPath"\<close>, \<^verbatim>\<open>"\\InstallPath"\<close>,
  \<^verbatim>\<open>"\\site-packages\\winsync"\<close> and the two entries of \<^verbatim>\<open>keys\<close>.
\<close>

definition PythonPath :: string where
  "PythonPath = [backslash] @ ''PythonPath''"

definition InstallPath :: string where
  "InstallPath = [backslash] @ ''InstallPath''"

definition site_packages_winsync :: string where
  "site_packages_winsync = [backslash] @ ''site-packages'' @ [backslash] @ ''winsync''"

definition keys :: "string list" where
  "keys = [''SOFTWARE'' @ [backslash] @ ''Python'' @ [backslash] @ ''PythonCore'',
           ''SOFTWARE'' @ [backslash] @ ''Wow6432Node'' @ [backslash] @ ''Python''
             @ [backslash] @ ''PythonCore'']"

text \<open>
  The inner loop, lines 120 to 144, from the context of \<^verbatim>\<open>_tcstok_s\<close>. \<open>Some path\<close> is
  the \<^verbatim>\<open>return\<close> of line 138, with the contents of the out parameter; \<open>None\<close> is the
  loop left with no token remaining.
\<close>

function token_loop ::
  "env \<Rightarrow> registry_key \<Rightarrow> string \<Rightarrow> nat \<Rightarrow> string \<Rightarrow> string option run" where
  "token_loop e root keyname path_size context =
     (case tcstok_s context of
        None \<Rightarrow> done_with None
      | Some (token, context') \<Rightarrow>
          andthen (tcscpy_s MAX_PATH token) (\<lambda>path.
          andthen (tcscat_s MAX_PATH path site_packages_winsync) (\<lambda>path.
          andthen (GetFileAttributes e path) (\<lambda>ret.
          if ret \<noteq> INVALID_FILE_ATTRIBUTES then
            andthen (tcscpy_s MAX_PATH keyname) (\<lambda>name.
            andthen (tcscat_s MAX_PATH name InstallPath) (\<lambda>name.
            andthen (RegGetValue e root name path_size) (\<lambda>(ret, path, path_size).
            if ret \<noteq> ERROR_SUCCESS then error_code_exit e ''RegGetValue (installpath)'' ret
            else done_with (Some path))))
          else token_loop e root keyname path_size context'))))"
  by pat_completeness auto
termination
proof (relation "measure (\<lambda>(e, root, keyname, path_size, context). length context)")
  show "wf (measure (\<lambda>(e, root, keyname, path_size, context). length context))"
    by simp
next
  fix e :: env and root :: registry_key and keyname :: string and path_size :: nat
    and ctx ctx' token :: string and x2 :: "string \<times> string"
  assume "tcstok_s ctx = Some x2" and "(token, ctx') = x2"
  then have "length ctx' < length ctx"
    using tcstok_s_shorter [of ctx token ctx'] by simp
  then show "((e, root, keyname, path_size, ctx'), (e, root, keyname, path_size, ctx))
      \<in> measure (\<lambda>(e, root, keyname, path_size, context). length context)"
    by simp
qed

declare token_loop.simps [simp del]

text \<open>
  The body of the outer loop, lines 108 to 147, for one enumerated name. \<open>Inl path\<close> is the
  \<^verbatim>\<open>return\<close> of line 138; \<open>Inr path_size\<close> goes on to the next name with the value
  \<^verbatim>\<open>path_size\<close> has by then.
\<close>

definition scan_subkey ::
  "env \<Rightarrow> registry_key \<Rightarrow> string \<Rightarrow> nat \<Rightarrow> (string + nat) run" where
  "scan_subkey e root keyname path_size =
     andthen (tcscpy_s MAX_PATH keyname) (\<lambda>name.
     andthen (tcscat_s MAX_PATH name PythonPath) (\<lambda>name.
     andthen (RegGetValue e root name path_size) (\<lambda>(ret, paths, path_size).
     if ret = ERROR_SUCCESS then
       andthen (token_loop e root keyname path_size paths) (\<lambda>found.
         case found of Some path \<Rightarrow> done_with (Inl path) | None \<Rightarrow> done_with (Inr path_size))
     else if ret \<noteq> 2 then error_code_exit e ''RegGetValue'' ret
     else done_with (Inr path_size))))"

text \<open>
  The outer loop, lines 106 to 158, from the value of \<^verbatim>\<open>index\<close>: each call of
  \<^verbatim>\<open>RegEnumKeyEx\<close> is offered \<^verbatim>\<open>name_size = MAX_PATH\<close> (line 85 for the first, line 150
  for the others). The registry reports the number of subkeys of a key as a \<^verbatim>\<open>DWORD\<close>,
  so \<^verbatim>\<open>index\<close> does not wrap and is a natural number here.
\<close>

function enum_loop :: "env \<Rightarrow> registry_key \<Rightarrow> nat \<Rightarrow> nat \<Rightarrow> string run" where
  "enum_loop e root index path_size =
     andthen (RegEnumKeyEx root index MAX_PATH) (\<lambda>(ret, keyname).
     if ERROR_SUCCESS = ret then
       andthen (scan_subkey e root keyname path_size) (\<lambda>r.
         case r of Inl path \<Rightarrow> done_with path
                 | Inr path_size \<Rightarrow> enum_loop e root (index + 1) path_size)
     else if ret = ERROR_NO_MORE_ITEMS then msg_exit ''Could not find a WinSync install''
     else error_code_exit e ''RegEnumKeyEx'' ret)"
  by pat_completeness auto
termination
  by (relation "measure (\<lambda>(e, root, index, path_size). length (subkeys root) - index)")
     (auto simp: RegEnumKeyEx_def logged_def enum_key_def ERROR_SUCCESS_def ERROR_MORE_DATA_def
           ERROR_NO_MORE_ITEMS_def split: if_splits)

declare enum_loop.simps [simp del]

definition find_winsync :: "env \<Rightarrow> string run" where
  "find_winsync e =
     andthen (RegOpenKeyEx e (keys ! 0) (KEY_READ OR KEY_ENUMERATE_SUB_KEYS)) (\<lambda>(ret, root).
     andthen (if ret \<noteq> ERROR_SUCCESS
              then RegOpenKeyEx e (keys ! 1) (KEY_READ OR KEY_ENUMERATE_SUB_KEYS)
              else done_with (ret, root)) (\<lambda>(ret, root).
     if ret \<noteq> ERROR_SUCCESS then error_code_exit e ''RegOpenKeyEx'' ret
     else enum_loop e root 0 MAX_PATH))"

subsection \<open>\<^verbatim>\<open>_tWinMain\<close>\<close>

definition tWinMain :: "env \<Rightarrow> string \<Rightarrow> unit run" where
  "tWinMain e lpCmdLine =
     andthen (find_winsync e) (\<lambda>path.
     andthen (tcscpy_s MAX_PATH path) (\<lambda>appname.
     andthen (tcscat_s MAX_PATH appname ''python.exe'') (\<lambda>appname.
     andthen (tcscat_s MAX_PATH appname '' -m winsync.run'') (\<lambda>appname.
     andthen (CreateProcess e appname path) (\<lambda>created.
       case created of
         Inl last_error \<Rightarrow> error_exit e ''CreateProcess'' last_error
       | Inr (hProcess, hThread) \<Rightarrow>
           andthen (WaitForSingleObject e hProcess INFINITE) (\<lambda>(waited, last_error).
           andthen (if waited = WAIT_ABANDONED then msg_exit ''Wait abandoned''
                    else if waited = WAIT_TIMEOUT
                    then msg_exit ''Timout reached, should have waited indefinately.''
                    else if waited = WAIT_FAILED
                    then error_exit e ''WaitForSingleObject'' last_error
                    else done_with ()) (\<lambda>_.
           andthen (CloseHandle e hProcess) (\<lambda>closed.
             case closed of
               Some last_error \<Rightarrow> error_exit e ''CloseHandle (process)'' last_error
             | None \<Rightarrow>
                 andthen (CloseHandle e hThread) (\<lambda>closed.
                   case closed of
                     Some last_error \<Rightarrow> error_exit e ''CloseHandle (thread)'' last_error
                   | None \<Rightarrow> done_with ())))))))))"

section \<open>What the claims speak about\<close>

subsection \<open>Runs\<close>

text \<open>The calls a run makes after those already made.\<close>

definition after :: "call list \<Rightarrow> 'a run \<Rightarrow> 'a run" where
  "after t m = (t @ fst m, snd m)"

text \<open>
  The tokens \<^verbatim>\<open>_tcstok_s\<close> yields from a string when it is called until it returns the
  null pointer, as the loop of lines 120 to 144 does.
\<close>

function tokens :: "string \<Rightarrow> string list" where
  "tokens context =
     (case tcstok_s context of
        None \<Rightarrow> []
      | Some (token, context') \<Rightarrow> token # tokens context')"
  by pat_completeness auto
termination
proof (relation "measure length")
  show "wf (measure (length :: string \<Rightarrow> nat))" by simp
next
  fix ctx ctx' token :: string and x2 :: "string \<times> string"
  assume "tcstok_s ctx = Some x2" and "(token, ctx') = x2"
  then have "length ctx' < length ctx"
    using tcstok_s_shorter [of ctx token ctx'] by simp
  then show "(ctx', ctx) \<in> measure length" by simp
qed

declare tokens.simps [simp del]

definition has_winsync :: "env \<Rightarrow> registry_key \<Rightarrow> string \<Rightarrow> bool" where
  "has_winsync e root keyname =
     (fst (default_value root (keyname @ PythonPath)) = ERROR_SUCCESS \<and>
      list_ex (\<lambda>token. file_attributes e (token @ site_packages_winsync) \<noteq> INVALID_FILE_ATTRIBUTES)
        (tokens (snd (default_value root (keyname @ PythonPath)))))"

text \<open>
  A name the scan passes over: the read of its \<^verbatim>\<open>PythonPath\<close> subkey returns 2, or it
  succeeds and no token has winsync. The first install is the first name that has winsync,
  all names before it being passed over.
\<close>

definition passed_over :: "env \<Rightarrow> registry_key \<Rightarrow> string \<Rightarrow> bool" where
  "passed_over e root keyname =
     (fst (default_value root (keyname @ PythonPath)) = 2
      \<or> fst (default_value root (keyname @ PythonPath)) = ERROR_SUCCESS
        \<and> \<not> has_winsync e root keyname)"

definition first_install :: "env \<Rightarrow> registry_key \<Rightarrow> nat \<Rightarrow> bool" where
  "first_install e root k =
     (k < length (subkeys root) \<and> has_winsync e root (subkeys root ! k)
      \<and> (\<forall>j<k. passed_over e root (subkeys root ! j)))"

text \<open>The indices passed to \<^verbatim>\<open>RegEnumKeyEx\<close>, in the order of the calls.\<close>

fun enumerated :: "call \<Rightarrow> nat list" where
  "enumerated (Call_RegEnumKeyEx i n ret name) = [i]"
| "enumerated c = []"

definition enumerations :: "call list \<Rightarrow> nat list" where
  "enumerations t = concat (map enumerated t)"

fun opened :: "call \<Rightarrow> (string \<times> dword) list" where
  "opened (Call_RegOpenKeyEx k sam ret) = [(k, ret)]"
| "opened c = []"

definition opens :: "call list \<Rightarrow> (string \<times> dword) list" where
  "opens t = concat (map opened t)"

text \<open>What a call of the scan looks like.\<close>

fun scan_call :: "call \<Rightarrow> bool" where
  "scan_call (Call_RegOpenKeyEx k sam ret) = False"
| "scan_call (Call_RegEnumKeyEx i n ret name) =
     (n = MAX_PATH \<and> (ret = ERROR_SUCCESS \<longrightarrow> length name < MAX_PATH))"
| "scan_call (Call_RegGetValue sub cb ret data) =
     (cb \<le> MAX_PATH \<and> length sub < MAX_PATH \<and> (ret = ERROR_SUCCESS \<longrightarrow> length data < cb))"
| "scan_call (Call_GetFileAttributes p ret) = (length p < MAX_PATH)"
| "scan_call (Call_CreateProcess cmd cwd r) = False"
| "scan_call (Call_WaitForSingleObject h ms ret err) = False"
| "scan_call (Call_CloseHandle h r) = False"
| "scan_call (Call_MessageBox text caption) = True"
| "scan_call (Call_ExitProcess s) = True"
| "scan_call (Call_tcscpy_s n src ok) = (n = MAX_PATH \<and> (ok \<longleftrightarrow> length src < MAX_PATH))"
| "scan_call (Call_tcscat_s n dst src ok) =
     (n = MAX_PATH \<and> length dst < MAX_PATH \<and> (ok \<longleftrightarrow> length dst + length src < MAX_PATH))"

fun failed :: "call \<Rightarrow> bool" where
  "failed (Call_RegOpenKeyEx k sam ret) = (ret \<noteq> ERROR_SUCCESS)"
| "failed (Call_RegEnumKeyEx i n ret name) = (ret \<noteq> ERROR_SUCCESS)"
| "failed (Call_RegGetValue sub cb ret data) = (ret \<noteq> ERROR_SUCCESS)"
| "failed (Call_GetFileAttributes p ret) = (ret = INVALID_FILE_ATTRIBUTES)"
| "failed (Call_CreateProcess cmd cwd r) = (case r of Inl last_error \<Rightarrow> True | Inr hs \<Rightarrow> False)"
| "failed (Call_WaitForSingleObject h ms ret last_error) = (ret = WAIT_FAILED)"
| "failed (Call_CloseHandle h r) = (r \<noteq> None)"
| "failed (Call_MessageBox text caption) = False"
| "failed (Call_ExitProcess s) = False"
| "failed (Call_tcscpy_s n src ok) = False"
| "failed (Call_tcscat_s n dst src ok) = False"

fun tolerated :: "call \<Rightarrow> bool" where
  "tolerated (Call_RegOpenKeyEx k sam ret) = (k = keys ! 0)"
| "tolerated (Call_RegGetValue sub cb ret data) = (ret = 2 \<and> suffix PythonPath sub)"
| "tolerated (Call_GetFileAttributes p ret) = True"
| "tolerated c = False"

fun rejected :: "call \<Rightarrow> bool" where
  "rejected (Call_tcscpy_s n src ok) = (\<not> ok)"
| "rejected (Call_tcscat_s n dst src ok) = (\<not> ok)"
| "rejected c = False"

fun exit_rule :: "call \<Rightarrow> string \<Rightarrow> dword \<Rightarrow> bool" where
  "exit_rule (Call_RegOpenKeyEx k sam ret) text s = (ret \<noteq> ERROR_SUCCESS \<and> s = ret)"
| "exit_rule (Call_RegEnumKeyEx i n ret name) text s =
     (ret \<noteq> ERROR_SUCCESS \<and>
       (if ret = ERROR_NO_MORE_ITEMS then s = 255 \<and> text = ''Could not find a WinSync install''
        else s = ret))"
| "exit_rule (Call_RegGetValue sub cb ret data) text s = (ret \<noteq> ERROR_SUCCESS \<and> s = ret)"
| "exit_rule (Call_CreateProcess cmd cwd r) text s = (r = Inl s)"
| "exit_rule (Call_WaitForSingleObject h ms ret last_error) text s =
     (if ret = WAIT_ABANDONED then s = 255 \<and> text = ''Wait abandoned''
      else if ret = WAIT_TIMEOUT
      then s = 255 \<and> text = ''Timout reached, should have waited indefinately.''
      else ret = WAIT_FAILED \<and> s = last_error)"
| "exit_rule (Call_CloseHandle h r) text s = (r = Some s)"
| "exit_rule c text s = False"

fun goes_on :: "call \<Rightarrow> bool" where
  "goes_on (Call_RegOpenKeyEx k sam ret) = (ret = ERROR_SUCCESS \<or> k = keys ! 0)"
| "goes_on (Call_RegEnumKeyEx i n ret name) = (ret = ERROR_SUCCESS)"
| "goes_on (Call_RegGetValue sub cb ret data) =
     (ret = ERROR_SUCCESS \<or> ret = 2 \<and> suffix PythonPath sub)"
| "goes_on (Call_GetFileAttributes p ret) = True"
| "goes_on (Call_CreateProcess cmd cwd r) = (case r of Inl last_error \<Rightarrow> False | Inr hs \<Rightarrow> True)"
| "goes_on (Call_WaitForSingleObject h ms ret last_error) =
     (ret \<noteq> WAIT_ABANDONED \<and> ret \<noteq> WAIT_TIMEOUT \<and> ret \<noteq> WAIT_FAILED)"
| "goes_on (Call_CloseHandle h r) = (r = None)"
| "goes_on (Call_MessageBox text caption) = False"
| "goes_on (Call_ExitProcess s) = False"
| "goes_on (Call_tcscpy_s n src ok) = ok"
| "goes_on (Call_tcscat_s n dst src ok) = ok"

definition ends_well :: "call list \<Rightarrow> 'a run \<Rightarrow> bool" where
  "ends_well pre m =
     (case snd m of
        Returned x \<Rightarrow> (\<forall>c\<in>set (pre @ fst m). goes_on c)
      | Exited s \<Rightarrow>
          (\<exists>pre' c msg' caption.
             pre @ fst m = pre' @ [c, Call_MessageBox msg' caption, Call_ExitProcess s]
             \<and> (\<forall>c'\<in>set pre'. goes_on c') \<and> exit_rule c msg' s)
      | Invalid_parameter \<Rightarrow>
          (\<exists>pre' c. pre @ fst m = pre' @ [c] \<and> (\<forall>c'\<in>set pre'. goes_on c') \<and> rejected c))"



fun bounded :: "call \<Rightarrow> bool" where
  "bounded (Call_tcscpy_s n src ok) = (n = MAX_PATH \<and> (ok \<longleftrightarrow> length src + 1 \<le> MAX_PATH))"
| "bounded (Call_tcscat_s n dst src ok) =
     (n = MAX_PATH \<and> (ok \<longleftrightarrow> length dst + length src + 1 \<le> MAX_PATH))"
| "bounded (Call_RegEnumKeyEx i n ret name) =
     (n = MAX_PATH \<and> (ret = ERROR_SUCCESS \<longrightarrow> length name + 1 \<le> MAX_PATH))"
| "bounded (Call_RegGetValue sub cb ret data) =
     (cb \<le> MAX_PATH \<and> (ret = ERROR_SUCCESS \<longrightarrow> length data + 1 \<le> cb))"
| "bounded c = True"

fun process_call :: "call \<Rightarrow> bool" where
  "process_call (Call_CreateProcess cmd cwd r) = True"
| "process_call (Call_WaitForSingleObject h ms ret last_error) = True"
| "process_call (Call_CloseHandle h r) = True"
| "process_call c = False"

text \<open>The key the scan runs on, lines 94 to 103: the first of the two that opens.\<close>

definition opened_key :: "env \<Rightarrow> registry_key option" where
  "opened_key e =
     (if fst (hklm e (keys ! 0)) = ERROR_SUCCESS then Some (snd (hklm e (keys ! 0)))
      else if fst (hklm e (keys ! 1)) = ERROR_SUCCESS then Some (snd (hklm e (keys ! 1)))
      else None)"

subsection \<open>The exit status\<close>

text \<open>
  The Windows error code of a call that failed: the return value of a registry call, and for
  \<^verbatim>\<open>CreateProcess\<close>, \<^verbatim>\<open>WaitForSingleObject\<close> and \<^verbatim>\<open>CloseHandle\<close> the last-error code,
  which \<^verbatim>\<open>error_exit\<close> reads with \<^verbatim>\<open>GetLastError\<close>.
\<close>

fun error_code :: "call \<Rightarrow> dword" where
  "error_code (Call_RegOpenKeyEx k sam ret) = ret"
| "error_code (Call_RegEnumKeyEx i n ret name) = ret"
| "error_code (Call_RegGetValue sub cb ret data) = ret"
| "error_code (Call_CreateProcess cmd cwd r) =
     (case r of Inl last_error \<Rightarrow> last_error | Inr hs \<Rightarrow> ERROR_SUCCESS)"
| "error_code (Call_WaitForSingleObject h ms ret last_error) = last_error"
| "error_code (Call_CloseHandle h r) =
     (case r of Some last_error \<Rightarrow> last_error | None \<Rightarrow> ERROR_SUCCESS)"
| "error_code c = ERROR_SUCCESS"


subsection \<open>The registry and the file system as a state\<close>

text \<open>
  The persistent state a run works on: what \<^verbatim>\<open>RegOpenKeyEx\<close> finds under
  \<^verbatim>\<open>HKEY_LOCAL_MACHINE\<close>, what \<^verbatim>\<open>GetFileAttributes\<close> finds on disk, and with them the key
  the handle \<^verbatim>\<open>root\<close> of \<^verbatim>\<open>find_winsync\<close> refers to, by its name.
\<close>

record system_state =
  registry :: "string \<Rightarrow> dword \<times> registry_key"
  files :: "string \<Rightarrow> dword"
  root_key :: "string option"

definition system_of :: "env \<Rightarrow> system_state" where
  "system_of e = \<lparr>registry = hklm e, files = file_attributes e, root_key = None\<rparr>"

text \<open>
  A call is answered by the state it is made in: \<^verbatim>\<open>RegOpenKeyEx\<close> by the registry,
  \<^verbatim>\<open>RegEnumKeyEx\<close> and \<^verbatim>\<open>RegGetValue\<close> by the key behind the handle, as the registry has it
  at that moment, \<^verbatim>\<open>GetFileAttributes\<close> by the file system. What the other calls
  answer is no matter of this state: the environment gives it.
\<close>

fun answers :: "charset \<Rightarrow> system_state \<Rightarrow> call \<Rightarrow> bool" where
  "answers cs st (Call_RegOpenKeyEx k sam ret) = (ret = fst (registry st k))"
| "answers cs st (Call_RegEnumKeyEx i n ret name) =
     (case root_key st of
        None \<Rightarrow> False
      | Some k \<Rightarrow> (ret, name) = enum_key (snd (registry st k)) i n)"
| "answers cs st (Call_RegGetValue sub cb ret data) =
     (case root_key st of
        None \<Rightarrow> False
      | Some k \<Rightarrow> ret = fst (get_value cs (snd (registry st k)) sub cb)
          \<and> data = fst (snd (get_value cs (snd (registry st k)) sub cb)))"
| "answers cs st (Call_GetFileAttributes p ret) = (ret = files st p)"
| "answers cs st (Call_CreateProcess cmd cwd r) = True"
| "answers cs st (Call_WaitForSingleObject h ms ret last_error) = True"
| "answers cs st (Call_CloseHandle h r) = True"
| "answers cs st (Call_MessageBox msg caption) = True"
| "answers cs st (Call_ExitProcess s) = True"
| "answers cs st (Call_tcscpy_s n src ok) = True"
| "answers cs st (Call_tcscat_s n dst src ok) = True"

text \<open>
  What a call of the launcher does to the state, by the documentation of the call.
  \<^verbatim>\<open>RegOpenKeyEx\<close> opens a key that exists and creates none; when it succeeds the handle
  refers to the key. \<^verbatim>\<open>RegEnumKeyEx\<close>, \<^verbatim>\<open>RegGetValue\<close> and \<^verbatim>\<open>GetFileAttributes\<close> retrieve.
  \<^verbatim>\<open>CreateProcess\<close> starts the interpreter, \<^verbatim>\<open>WaitForSingleObject\<close> waits for it and
  \<^verbatim>\<open>CloseHandle\<close> gives up a handle of the launcher: what the interpreter does to the
  registry and to files while it runs is its own work and no effect of these calls.
  \<^verbatim>\<open>MessageBox\<close> and \<^verbatim>\<open>ExitProcess\<close> show a window and end the process, and the string
  functions write the buffers of the launcher.
\<close>

fun effect :: "call \<Rightarrow> system_state \<Rightarrow> system_state" where
  "effect (Call_RegOpenKeyEx k sam ret) st =
     (if ret = ERROR_SUCCESS then st\<lparr>root_key := Some k\<rparr> else st)"
| "effect (Call_RegEnumKeyEx i n ret name) st = st"
| "effect (Call_RegGetValue sub cb ret data) st = st"
| "effect (Call_GetFileAttributes p ret) st = st"
| "effect (Call_CreateProcess cmd cwd r) st = st"
| "effect (Call_WaitForSingleObject h ms ret last_error) st = st"
| "effect (Call_CloseHandle h r) st = st"
| "effect (Call_MessageBox msg caption) st = st"
| "effect (Call_ExitProcess s) st = st"
| "effect (Call_tcscpy_s n src ok) st = st"
| "effect (Call_tcscat_s n dst src ok) st = st"

text \<open>
  The state threaded through the calls of a run, in their order: each call must be
  answered by the state it meets (\<open>None\<close> when one is not), and hands on the state it
  leaves.
\<close>

fun replay :: "charset \<Rightarrow> system_state \<Rightarrow> call list \<Rightarrow> system_state option" where
  "replay cs st [] = Some st"
| "replay cs st (c # t) = (if answers cs st c then replay cs (effect c st) t else None)"

subsection \<open>Machines\<close>

definition no_key :: registry_key where
  "no_key = \<lparr>subkeys = [], enum_fault = ERROR_SUCCESS, default_value = (\<lambda>sub. (2, []))\<rparr>"

definition no_python :: env where
  "no_python =
     \<lparr>charset = Unicode,
      hklm = (\<lambda>k. (2, no_key)),
      file_attributes = (\<lambda>p. INVALID_FILE_ATTRIBUTES),
      system_message = (\<lambda>code. ''The system cannot find the file specified.''),
      create_process = (\<lambda>cmd cwd. Inl 2),
      wait_for_single_object = (\<lambda>h ms. (WAIT_FAILED, 6)),
      close_handle = (\<lambda>h. Some 6)\<rparr>"

definition Python27_Lib :: string where
  "Python27_Lib = ''C:'' @ [backslash] @ ''Python27'' @ [backslash] @ ''Lib''"

definition Python27 :: string where
  "Python27 = ''C:'' @ [backslash] @ ''Python27'' @ [backslash]"

definition core_key :: registry_key where
  "core_key =
     \<lparr>subkeys = [''2.6'', ''2.7''], enum_fault = ERROR_SUCCESS,
      default_value = (\<lambda>sub.
        if sub = ''2.7'' @ PythonPath then (ERROR_SUCCESS, Python27_Lib)
        else if sub = ''2.7'' @ InstallPath then (ERROR_SUCCESS, Python27)
        else (2, []))\<rparr>"

definition wow64_machine :: env where
  "wow64_machine =
     \<lparr>charset = Unicode,
      hklm = (\<lambda>k. if k = keys ! 1 then (ERROR_SUCCESS, core_key) else (2, no_key)),
      file_attributes = (\<lambda>p.
        if p = Python27_Lib @ site_packages_winsync then 16 else INVALID_FILE_ATTRIBUTES),
      system_message = (\<lambda>code. ''The system cannot find the file specified.''),
      create_process = (\<lambda>cmd cwd. Inr (100, 104)),
      wait_for_single_object = (\<lambda>h ms. (WAIT_OBJECT_0, 0)),
      close_handle = (\<lambda>h. None)\<rparr>"

definition orphan_key :: registry_key where
  "orphan_key =
     \<lparr>subkeys = [''2.7''], enum_fault = ERROR_SUCCESS,
      default_value = (\<lambda>sub.
        if sub = ''2.7'' @ PythonPath then (ERROR_SUCCESS, Python27_Lib) else (2, []))\<rparr>"

definition orphaned :: env where
  "orphaned = wow64_machine\<lparr>hklm := (\<lambda>k. (ERROR_SUCCESS, orphan_key))\<rparr>"

definition long_name_key :: registry_key where
  "long_name_key =
     \<lparr>subkeys = [replicate 249 (CHR ''x'')], enum_fault = ERROR_SUCCESS,
      default_value = (\<lambda>sub. (2, []))\<rparr>"

definition long_name :: env where
  "long_name = wow64_machine\<lparr>hklm := (\<lambda>k. (ERROR_SUCCESS, long_name_key))\<rparr>"

definition Python33_Lib :: string where
  "Python33_Lib = ''C:'' @ [backslash] @ ''Python33'' @ [backslash] @ ''Lib''"

definition Python33_DLLs :: string where
  "Python33_DLLs = ''C:'' @ [backslash] @ ''Python33'' @ [backslash] @ ''DLLs''"

definition Python33 :: string where
  "Python33 = ''C:'' @ [backslash] @ ''Python33'' @ [backslash]"

definition two_pythons_key :: registry_key where
  "two_pythons_key =
     \<lparr>subkeys = [''2.7'', ''3.3''], enum_fault = ERROR_SUCCESS,
      default_value = (\<lambda>sub.
        if sub = ''2.7'' @ PythonPath then (ERROR_SUCCESS, Python27_Lib)
        else if sub = ''2.7'' @ InstallPath then (ERROR_SUCCESS, Python27)
        else if sub = ''3.3'' @ PythonPath then (ERROR_SUCCESS, Python33_Lib @ '';'' @ Python33_DLLs)
        else if sub = ''3.3'' @ InstallPath then (ERROR_SUCCESS, Python33)
        else (2, []))\<rparr>"

definition two_pythons :: env where
  "two_pythons =
     \<lparr>charset = Unicode,
      hklm = (\<lambda>k. if k = keys ! 0 then (ERROR_SUCCESS, two_pythons_key) else (2, no_key)),
      file_attributes = (\<lambda>p.
        if p = Python33_Lib @ site_packages_winsync then 16 else INVALID_FILE_ATTRIBUTES),
      system_message = (\<lambda>code. ''More data is available.''),
      create_process = (\<lambda>cmd cwd. Inr (100, 104)),
      wait_for_single_object = (\<lambda>h ms. (WAIT_OBJECT_0, 0)),
      close_handle = (\<lambda>h. None)\<rparr>"




section \<open>Lemmas\<close>

subsection \<open>Sequencing\<close>

lemma andthen_logged [simp]: "andthen (logged c x) f = (c # fst (f x), snd (f x))"
  by (simp add: andthen_def logged_def)

lemma andthen_done_with [simp]: "andthen (done_with x) f = f x"
  by (simp add: andthen_def done_with_def)

lemma andthen_Returned [simp]: "andthen (t, Returned x) f = (t @ fst (f x), snd (f x))"
  by (simp add: andthen_def)

lemma andthen_Exited [simp]: "andthen (t, Exited s) f = (t, Exited s)"
  by (simp add: andthen_def)

lemma andthen_Invalid_parameter [simp]: "andthen (t, Invalid_parameter) f = (t, Invalid_parameter)"
  by (simp add: andthen_def)

lemma andthen_tcscpy_s:
  "andthen (tcscpy_s n src) f =
     (if length src < n then (Call_tcscpy_s n src True # fst (f src), snd (f src))
      else ([Call_tcscpy_s n src False], Invalid_parameter))"
  by (simp add: tcscpy_s_def)

lemma andthen_tcscat_s:
  "andthen (tcscat_s n dst src) f =
     (if length dst + length src < n
      then (Call_tcscat_s n dst src True # fst (f (dst @ src)), snd (f (dst @ src)))
      else ([Call_tcscat_s n dst src False], Invalid_parameter))"
  by (simp add: tcscat_s_def)

lemma snd_andthen:
  "snd (andthen m f) =
     (case snd m of Returned x \<Rightarrow> snd (f x) | Exited s \<Rightarrow> Exited s
      | Invalid_parameter \<Rightarrow> Invalid_parameter)"
  by (simp add: andthen_def split: outcome.splits)

lemma fst_andthen:
  "fst (andthen m f) =
     (case snd m of Returned x \<Rightarrow> fst m @ fst (f x) | Exited s \<Rightarrow> fst m
      | Invalid_parameter \<Rightarrow> fst m)"
  by (simp add: andthen_def split: outcome.splits)

lemma in_andthenD:
  "c \<in> set (fst (andthen m f)) \<Longrightarrow>
     c \<in> set (fst m) \<or> (\<exists>x. snd m = Returned x \<and> c \<in> set (fst (f x)))"
  by (auto simp: andthen_def split: outcome.splits)

lemma fst_after [simp]: "fst (after t m) = t @ fst m"
  and snd_after [simp]: "snd (after t m) = snd m"
  by (simp_all add: after_def)

lemma error_code_exit_simps [simp]:
  "snd (error_code_exit e f s) = Exited s"
  "set (fst (error_code_exit e f s)) = {Call_MessageBox (f @ '' failed with error '' @ printf_d s @ '': ''
            @ system_message e s) ''Error'', Call_ExitProcess s}"
  by (auto simp: error_code_exit_def)

lemma msg_exit_simps [simp]:
  "snd (msg_exit msg) = Exited 255"
  "set (fst (msg_exit msg)) = {Call_MessageBox msg ''ERROR'', Call_ExitProcess 255}"
  by (auto simp: msg_exit_def)

lemma error_exit_eq [simp]: "error_exit e f s = error_code_exit e f s"
  by (simp add: error_exit_def)

subsection \<open>The constants\<close>

lemma length_literals [simp]:
  "length PythonPath = 11" "length InstallPath = 12" "length site_packages_winsync = 22"
  by (simp_all add: PythonPath_def InstallPath_def site_packages_winsync_def)

lemma codes_distinct [simp]:
  "ERROR_NO_MORE_ITEMS \<noteq> ERROR_SUCCESS" "ERROR_SUCCESS \<noteq> ERROR_NO_MORE_ITEMS"
  "ERROR_MORE_DATA \<noteq> ERROR_SUCCESS" "ERROR_SUCCESS \<noteq> ERROR_MORE_DATA"
  "ERROR_MORE_DATA \<noteq> 2" "ERROR_SUCCESS \<noteq> 2" "ERROR_NO_MORE_ITEMS \<noteq> 2"
  "WAIT_ABANDONED \<noteq> WAIT_OBJECT_0" "WAIT_TIMEOUT \<noteq> WAIT_OBJECT_0"
  "WAIT_FAILED \<noteq> WAIT_OBJECT_0" "WAIT_ABANDONED \<noteq> WAIT_TIMEOUT"
  "WAIT_ABANDONED \<noteq> WAIT_FAILED" "WAIT_TIMEOUT \<noteq> WAIT_FAILED"
  "WAIT_TIMEOUT \<noteq> WAIT_ABANDONED" "WAIT_FAILED \<noteq> WAIT_ABANDONED"
  "WAIT_FAILED \<noteq> WAIT_TIMEOUT"
  by (simp_all add: ERROR_NO_MORE_ITEMS_def ERROR_SUCCESS_def ERROR_MORE_DATA_def
      WAIT_ABANDONED_def WAIT_OBJECT_0_def WAIT_TIMEOUT_def WAIT_FAILED_def)

lemma length_keys [simp]: "length keys = 2"
  by (simp add: keys_def)

lemma keys_distinct [simp]: "keys ! 1 \<noteq> keys ! 0" "keys ! Suc 0 \<noteq> keys ! 0"
  by (simp_all add: keys_def)

lemma suffix_PythonPath [simp]: "suffix PythonPath (keyname @ PythonPath)"
  by (rule suffix_appendI) simp

lemma suffix_InstallPath [simp]: "suffix InstallPath (keyname @ InstallPath)"
  by (rule suffix_appendI) simp

lemma not_suffix_InstallPath [simp]: "\<not> suffix InstallPath (keyname @ PythonPath)"
  by (simp add: suffix_to_prefix InstallPath_def PythonPath_def)


subsection \<open>What the registry answers\<close>

lemma get_value_bound:
  "fst (get_value cs root sub cb) = ERROR_SUCCESS \<Longrightarrow>
     length (fst (snd (get_value cs root sub cb))) < cb \<and> snd (snd (get_value cs root sub cb)) \<le> cb"
  by (cases cs) (auto simp: get_value_def ERROR_SUCCESS_def ERROR_MORE_DATA_def split: if_splits)

lemma get_value_2:
  "fst (get_value cs root sub cb) = 2 \<Longrightarrow> snd (snd (get_value cs root sub cb)) = cb"
  by (auto simp: get_value_def ERROR_SUCCESS_def ERROR_MORE_DATA_def split: if_splits)

lemma get_value_success:
  "fst (get_value cs root sub cb) = ERROR_SUCCESS \<Longrightarrow>
     default_value root sub = (ERROR_SUCCESS, fst (snd (get_value cs root sub cb)))"
  by (auto simp: get_value_def prod_eq_iff split: if_splits)

lemma get_value_2_value:
  "fst (get_value cs root sub cb) = 2 \<Longrightarrow> fst (default_value root sub) = 2"
  by (auto simp: get_value_def split: if_splits)

lemma enum_key_bound:
  "fst (enum_key root i n) = ERROR_SUCCESS \<Longrightarrow> length (snd (enum_key root i n)) < n"
  by (auto simp: enum_key_def ERROR_SUCCESS_def ERROR_MORE_DATA_def ERROR_NO_MORE_ITEMS_def
      split: if_splits)

lemma enum_key_success:
  "fst (enum_key root i n) = ERROR_SUCCESS \<Longrightarrow>
     i < length (subkeys root) \<and> snd (enum_key root i n) = subkeys root ! i"
  by (auto simp: enum_key_def split: if_splits)

subsection \<open>The loops, one step at a time\<close>

lemma token_loop_induct [case_names step]:
  fixes P :: "env \<Rightarrow> registry_key \<Rightarrow> string \<Rightarrow> nat \<Rightarrow> string \<Rightarrow> bool"
  assumes step: "\<And>e root keyname ps ctx.
    (\<And>token ctx'. \<lbrakk>tcstok_s ctx = Some (token, ctx'); length token + 22 < MAX_PATH;
         file_attributes e (token @ site_packages_winsync) = INVALID_FILE_ATTRIBUTES\<rbrakk>
       \<Longrightarrow> P e root keyname ps ctx')
    \<Longrightarrow> P e root keyname ps ctx"
  shows "P e root keyname ps ctx"
proof (induction e root keyname ps ctx rule: token_loop.induct)
  case (1 e root keyname ps ctx)
  show ?case
  proof (rule step)
    fix token ctx'
    assume a: "tcstok_s ctx = Some (token, ctx')" and b: "length token + 22 < MAX_PATH"
      and c: "file_attributes e (token @ site_packages_winsync) = INVALID_FILE_ATTRIBUTES"
    show "P e root keyname ps ctx'"
    proof (rule "1.IH" [of "(token, ctx')" token ctx' token "token @ site_packages_winsync"
          INVALID_FILE_ATTRIBUTES])
      show "tcstok_s ctx = Some (token, ctx')" by (rule a)
      show "(token, ctx') = (token, ctx')" by (rule refl)
      show "snd (tcscpy_s MAX_PATH token) = Returned token"
        using b by (simp add: tcscpy_s_def logged_def)
      show "snd (tcscat_s MAX_PATH token site_packages_winsync)
          = Returned (token @ site_packages_winsync)"
        using b by (simp add: tcscat_s_def logged_def)
      show "snd (GetFileAttributes e (token @ site_packages_winsync))
          = Returned INVALID_FILE_ATTRIBUTES"
        using c by (simp add: GetFileAttributes_def logged_def)
      show "\<not> INVALID_FILE_ATTRIBUTES \<noteq> INVALID_FILE_ATTRIBUTES" by simp
    qed
  qed
qed

lemma enum_loop_induct [case_names step]:
  fixes P :: "env \<Rightarrow> registry_key \<Rightarrow> nat \<Rightarrow> nat \<Rightarrow> bool"
  assumes step: "\<And>e root i ps.
    (\<And>ps'. \<lbrakk>fst (enum_key root i MAX_PATH) = ERROR_SUCCESS;
         snd (scan_subkey e root (snd (enum_key root i MAX_PATH)) ps) = Returned (Inr ps')\<rbrakk>
       \<Longrightarrow> P e root (Suc i) ps')
    \<Longrightarrow> P e root i ps"
  shows "P e root i ps"
proof (induction e root i ps rule: enum_loop.induct)
  case (1 e root index path_size)
  show ?case
  proof (rule step)
    fix ps'
    assume a: "fst (enum_key root index MAX_PATH) = ERROR_SUCCESS"
      and b: "snd (scan_subkey e root (snd (enum_key root index MAX_PATH)) path_size)
          = Returned (Inr ps')"
    have "P e root (index + 1) ps'"
    proof (rule "1.IH" [of "enum_key root index MAX_PATH" "fst (enum_key root index MAX_PATH)"
          "snd (enum_key root index MAX_PATH)" "Inr ps'" ps'])
      show "snd (RegEnumKeyEx root index MAX_PATH) = Returned (enum_key root index MAX_PATH)"
        by (simp add: RegEnumKeyEx_def logged_def)
      show "(fst (enum_key root index MAX_PATH), snd (enum_key root index MAX_PATH))
          = enum_key root index MAX_PATH" by simp
      show "ERROR_SUCCESS = fst (enum_key root index MAX_PATH)" by (simp only: a)
      show "snd (scan_subkey e root (snd (enum_key root index MAX_PATH)) path_size)
          = Returned (Inr ps')" by (rule b)
      show "Inr ps' = Inr ps'" by (rule refl)
    qed
    then show "P e root (Suc index) ps'" by simp
  qed
qed

lemma token_loop_unfold:
  "token_loop e root keyname ps ctx =
     (case tcstok_s ctx of
        None \<Rightarrow> ([], Returned None)
      | Some (token, ctx') \<Rightarrow>
          if \<not> length token < MAX_PATH then ([Call_tcscpy_s MAX_PATH token False], Invalid_parameter)
          else if \<not> length token + 22 < MAX_PATH
          then ([Call_tcscpy_s MAX_PATH token True,
                 Call_tcscat_s MAX_PATH token site_packages_winsync False], Invalid_parameter)
          else after [Call_tcscpy_s MAX_PATH token True,
                      Call_tcscat_s MAX_PATH token site_packages_winsync True,
                      Call_GetFileAttributes (token @ site_packages_winsync)
                        (file_attributes e (token @ site_packages_winsync))]
            (if file_attributes e (token @ site_packages_winsync) = INVALID_FILE_ATTRIBUTES
             then token_loop e root keyname ps ctx'
             else if \<not> length keyname < MAX_PATH
             then ([Call_tcscpy_s MAX_PATH keyname False], Invalid_parameter)
             else if \<not> length keyname + 12 < MAX_PATH
             then ([Call_tcscpy_s MAX_PATH keyname True,
                    Call_tcscat_s MAX_PATH keyname InstallPath False], Invalid_parameter)
             else after [Call_tcscpy_s MAX_PATH keyname True,
                         Call_tcscat_s MAX_PATH keyname InstallPath True,
                         Call_RegGetValue (keyname @ InstallPath) ps
                           (fst (get_value (charset e) root (keyname @ InstallPath) ps))
                           (fst (snd (get_value (charset e) root (keyname @ InstallPath) ps)))]
               (if fst (get_value (charset e) root (keyname @ InstallPath) ps) \<noteq> ERROR_SUCCESS
                then error_code_exit e ''RegGetValue (installpath)''
                       (fst (get_value (charset e) root (keyname @ InstallPath) ps))
                else ([], Returned (Some (fst (snd
                       (get_value (charset e) root (keyname @ InstallPath) ps))))))))"
  apply (subst token_loop.simps)
  apply (simp add: andthen_tcscpy_s andthen_tcscat_s GetFileAttributes_def RegGetValue_def
      done_with_def split_beta after_def split: option.splits)
  done

lemma scan_subkey_unfold:
  "scan_subkey e root keyname ps =
     (if \<not> length keyname < MAX_PATH then ([Call_tcscpy_s MAX_PATH keyname False], Invalid_parameter)
      else if \<not> length keyname + 11 < MAX_PATH
      then ([Call_tcscpy_s MAX_PATH keyname True,
             Call_tcscat_s MAX_PATH keyname PythonPath False], Invalid_parameter)
      else after [Call_tcscpy_s MAX_PATH keyname True,
                  Call_tcscat_s MAX_PATH keyname PythonPath True,
                  Call_RegGetValue (keyname @ PythonPath) ps
                    (fst (get_value (charset e) root (keyname @ PythonPath) ps))
                    (fst (snd (get_value (charset e) root (keyname @ PythonPath) ps)))]
        (if fst (get_value (charset e) root (keyname @ PythonPath) ps) = ERROR_SUCCESS
         then andthen (token_loop e root keyname
                         (snd (snd (get_value (charset e) root (keyname @ PythonPath) ps)))
                         (fst (snd (get_value (charset e) root (keyname @ PythonPath) ps))))
                (\<lambda>found. case found of
                   Some path \<Rightarrow> ([], Returned (Inl path))
                 | None \<Rightarrow> ([], Returned (Inr (snd (snd
                     (get_value (charset e) root (keyname @ PythonPath) ps))))))
         else if fst (get_value (charset e) root (keyname @ PythonPath) ps) \<noteq> 2
         then error_code_exit e ''RegGetValue''
                (fst (get_value (charset e) root (keyname @ PythonPath) ps))
         else ([], Returned (Inr (snd (snd (get_value (charset e) root (keyname @ PythonPath) ps)))))))"
  by (simp add: scan_subkey_def andthen_tcscpy_s andthen_tcscat_s RegGetValue_def
      done_with_def split_beta after_def)

lemma enum_loop_unfold:
  "enum_loop e root i ps =
     after [Call_RegEnumKeyEx i MAX_PATH (fst (enum_key root i MAX_PATH))
              (snd (enum_key root i MAX_PATH))]
       (if fst (enum_key root i MAX_PATH) = ERROR_SUCCESS then
          andthen (scan_subkey e root (snd (enum_key root i MAX_PATH)) ps)
            (\<lambda>r. case r of Inl path \<Rightarrow> done_with path
                          | Inr ps' \<Rightarrow> enum_loop e root (Suc i) ps')
        else if fst (enum_key root i MAX_PATH) = ERROR_NO_MORE_ITEMS
        then msg_exit ''Could not find a WinSync install''
        else error_code_exit e ''RegEnumKeyEx'' (fst (enum_key root i MAX_PATH)))"
  apply (subst enum_loop.simps)
  apply (simp add: RegEnumKeyEx_def split_beta after_def eq_commute [of ERROR_SUCCESS])
  done

lemma find_winsync_unfold:
  "find_winsync e =
     after [Call_RegOpenKeyEx (keys ! 0) (KEY_READ OR KEY_ENUMERATE_SUB_KEYS)
              (fst (hklm e (keys ! 0)))]
       (if fst (hklm e (keys ! 0)) = ERROR_SUCCESS
        then enum_loop e (snd (hklm e (keys ! 0))) 0 MAX_PATH
        else after [Call_RegOpenKeyEx (keys ! 1) (KEY_READ OR KEY_ENUMERATE_SUB_KEYS)
                      (fst (hklm e (keys ! 1)))]
          (if fst (hklm e (keys ! 1)) \<noteq> ERROR_SUCCESS
           then error_code_exit e ''RegOpenKeyEx'' (fst (hklm e (keys ! 1)))
           else enum_loop e (snd (hklm e (keys ! 1))) 0 MAX_PATH))"
  by (simp add: find_winsync_def RegOpenKeyEx_def split_beta after_def)

lemma tWinMain_unfold:
  "tWinMain e lpCmdLine =
     (case snd (find_winsync e) of
        Exited s \<Rightarrow> (fst (find_winsync e), Exited s)
      | Invalid_parameter \<Rightarrow> (fst (find_winsync e), Invalid_parameter)
      | Returned path \<Rightarrow>
          after (fst (find_winsync e))
           (if \<not> length path < MAX_PATH then ([Call_tcscpy_s MAX_PATH path False], Invalid_parameter)
            else if \<not> length path + 10 < MAX_PATH
            then ([Call_tcscpy_s MAX_PATH path True,
                   Call_tcscat_s MAX_PATH path ''python.exe'' False], Invalid_parameter)
            else if \<not> length path + 25 < MAX_PATH
            then ([Call_tcscpy_s MAX_PATH path True,
                   Call_tcscat_s MAX_PATH path ''python.exe'' True,
                   Call_tcscat_s MAX_PATH (path @ ''python.exe'') '' -m winsync.run'' False],
                  Invalid_parameter)
            else after [Call_tcscpy_s MAX_PATH path True,
                        Call_tcscat_s MAX_PATH path ''python.exe'' True,
                        Call_tcscat_s MAX_PATH (path @ ''python.exe'') '' -m winsync.run'' True,
                        Call_CreateProcess (path @ ''python.exe'' @ '' -m winsync.run'') path
                          (create_process e (path @ ''python.exe'' @ '' -m winsync.run'') path)]
              (case create_process e (path @ ''python.exe'' @ '' -m winsync.run'') path of
                 Inl last_error \<Rightarrow> error_exit e ''CreateProcess'' last_error
               | Inr (hProcess, hThread) \<Rightarrow>
                   after [Call_WaitForSingleObject hProcess INFINITE
                            (fst (wait_for_single_object e hProcess INFINITE))
                            (snd (wait_for_single_object e hProcess INFINITE))]
                     (if fst (wait_for_single_object e hProcess INFINITE) = WAIT_ABANDONED
                      then msg_exit ''Wait abandoned''
                      else if fst (wait_for_single_object e hProcess INFINITE) = WAIT_TIMEOUT
                      then msg_exit ''Timout reached, should have waited indefinately.''
                      else if fst (wait_for_single_object e hProcess INFINITE) = WAIT_FAILED
                      then error_exit e ''WaitForSingleObject''
                             (snd (wait_for_single_object e hProcess INFINITE))
                      else after [Call_CloseHandle hProcess (close_handle e hProcess)]
                        (case close_handle e hProcess of
                           Some last_error \<Rightarrow> error_exit e ''CloseHandle (process)'' last_error
                         | None \<Rightarrow>
                             after [Call_CloseHandle hThread (close_handle e hThread)]
                               (case close_handle e hThread of
                                  Some last_error \<Rightarrow>
                                    error_exit e ''CloseHandle (thread)'' last_error
                                | None \<Rightarrow> ([], Returned ())))))))"
  apply (simp add: tWinMain_def andthen_def [of "find_winsync e"] split: outcome.splits)
  apply (simp add: andthen_tcscpy_s andthen_tcscat_s CreateProcess_def WaitForSingleObject_def
      CloseHandle_def split_beta after_def done_with_def msg_exit_def error_exit_def
      error_code_exit_def split: sum.splits option.splits)
  done

subsection \<open>The calls of a run\<close>

lemma token_loop_calls:
  "ps \<le> MAX_PATH \<Longrightarrow> \<forall>c\<in>set (fst (token_loop e root keyname ps ctx)). scan_call c"
proof (induction e root keyname ps ctx rule: token_loop_induct)
  case (step e root keyname ps ctx)
  from step.prems get_value_bound [of "charset e" root "keyname @ InstallPath" ps] show ?case
    apply (subst token_loop_unfold)
    apply (auto split: option.splits dest: step.IH)
    done
qed

lemma scan_subkey_calls:
  assumes "ps \<le> MAX_PATH"
  shows "\<forall>c\<in>set (fst (scan_subkey e root keyname ps)). scan_call c"
proof -
  let ?r = "get_value (charset e) root (keyname @ PythonPath) ps"
  have le: "fst ?r = ERROR_SUCCESS \<Longrightarrow> length (fst (snd ?r)) < ps \<and> snd (snd ?r) \<le> MAX_PATH"
    using get_value_bound [of "charset e" root "keyname @ PythonPath" ps] assms by simp
  from assms le token_loop_calls [of "snd (snd ?r)" e root keyname "fst (snd ?r)"] show ?thesis
    apply (subst scan_subkey_unfold)
    apply (auto dest!: in_andthenD split: option.splits)
    done
qed

lemma scan_subkey_path_size:
  assumes "ps \<le> MAX_PATH" and "snd (scan_subkey e root keyname ps) = Returned (Inr ps')"
  shows "ps' \<le> MAX_PATH"
proof -
  let ?r = "get_value (charset e) root (keyname @ PythonPath) ps"
  have le: "fst ?r = ERROR_SUCCESS \<Longrightarrow> snd (snd ?r) \<le> MAX_PATH"
    using get_value_bound [of "charset e" root "keyname @ PythonPath" ps] assms by simp
  have two: "fst ?r = 2 \<Longrightarrow> snd (snd ?r) = ps"
    by (rule get_value_2)
  from assms le two show ?thesis
    apply (subst (asm) scan_subkey_unfold)
    apply (auto simp: andthen_def split: outcome.splits option.splits if_splits)
    done
qed

lemma enum_loop_calls:
  "ps \<le> MAX_PATH \<Longrightarrow> \<forall>c\<in>set (fst (enum_loop e root i ps)). scan_call c"
proof (induction e root i ps rule: enum_loop_induct)
  case (step e root i ps)
  have IH: "scan_call c" if "fst (enum_key root i MAX_PATH) = ERROR_SUCCESS"
    "snd (scan_subkey e root (snd (enum_key root i MAX_PATH)) ps) = Returned (Inr ps')"
    "c \<in> set (fst (enum_loop e root (Suc i) ps'))" for ps' c
    using step.IH [OF that(1,2)] scan_subkey_path_size [OF step.prems that(2)] that(3) by blast
  from step.prems enum_key_bound [of root i MAX_PATH]
    scan_subkey_calls [OF step.prems, of e root "snd (enum_key root i MAX_PATH)"]
  show ?case
    apply (subst enum_loop_unfold)
    apply (auto dest!: in_andthenD split: sum.splits dest: IH simp: done_with_def)
    done
qed

lemma find_winsync_calls:
  "c \<in> set (fst (find_winsync e)) \<Longrightarrow>
     scan_call c \<or> (\<exists>k ret. c = Call_RegOpenKeyEx k (KEY_READ OR KEY_ENUMERATE_SUB_KEYS) ret)"
  using enum_loop_calls [of MAX_PATH e "snd (hklm e (keys ! 0))" 0]
    enum_loop_calls [of MAX_PATH e "snd (hklm e (keys ! 1))" 0]
  by (subst (asm) find_winsync_unfold) (auto split: if_splits)

lemma tWinMain_calls:
  assumes "c \<in> set (fst (tWinMain e lpCmdLine))"
  shows "c \<in> set (fst (find_winsync e))
    \<or> (\<exists>path. snd (find_winsync e) = Returned path
        \<and> (c = Call_tcscpy_s MAX_PATH path (length path < MAX_PATH)
          \<or> c = Call_tcscat_s MAX_PATH path ''python.exe'' (length path + 10 < MAX_PATH)
          \<or> c = Call_tcscat_s MAX_PATH (path @ ''python.exe'') '' -m winsync.run''
                (length path + 25 < MAX_PATH)
          \<or> length path + 25 < MAX_PATH
            \<and> (c = Call_CreateProcess (path @ ''python.exe'' @ '' -m winsync.run'') path
                     (create_process e (path @ ''python.exe'' @ '' -m winsync.run'') path)
              \<or> (\<exists>h ms ret last_error. c = Call_WaitForSingleObject h ms ret last_error)
              \<or> (\<exists>h r. c = Call_CloseHandle h r)
              \<or> (\<exists>msg caption. c = Call_MessageBox msg caption)
              \<or> (\<exists>s. c = Call_ExitProcess s))))"
proof (cases "snd (find_winsync e)")
  case (Returned path)
  from assms show ?thesis
    apply (subst (asm) tWinMain_unfold)
    apply (simp add: Returned split: if_splits)
       apply (auto simp: error_code_exit_def msg_exit_def split: sum.splits option.splits if_splits)
    done
next
  case (Exited s)
  with assms show ?thesis by (subst (asm) tWinMain_unfold) simp
next
  case Invalid_parameter
  with assms show ?thesis by (subst (asm) tWinMain_unfold) simp
qed


lemma scan_call_process_call: "scan_call c \<Longrightarrow> \<not> process_call c"
  by (cases c) simp_all

lemma scan_call_bounded: "scan_call c \<Longrightarrow> bounded c"
  by (cases c) auto

lemma opens_Nil [simp]: "opens [] = []"
  by (simp add: opens_def)

lemma opens_Cons [simp]: "opens (c # t) = opened c @ opens t"
  by (simp add: opens_def)

lemma opens_scan_call: "\<forall>c\<in>set t. scan_call c \<Longrightarrow> opens t = []"
proof (induction t)
  case Nil
  show ?case by (simp add: opens_def)
next
  case (Cons c t)
  then have "opens t = []" and "scan_call c" by simp_all
  then show ?case by (cases c) (simp_all add: opens_def)
qed

lemma opens_enum_loop [simp]: "opens (fst (enum_loop e root 0 MAX_PATH)) = []"
  by (rule opens_scan_call) (rule enum_loop_calls, simp)

subsection \<open>How a run ends\<close>

lemma ends_well_after [simp]: "ends_well pre (after t m) = ends_well (pre @ t) m"
  by (cases "snd m") (simp_all add: ends_well_def)

lemma ends_well_Returned [simp]:
  "ends_well pre (t, Returned x) = (\<forall>c\<in>set (pre @ t). goes_on c)"
  by (simp add: ends_well_def)

lemma ends_well_Invalid_parameter [simp]:
  "ends_well pre (t, Invalid_parameter) =
     (pre @ t \<noteq> [] \<and> (\<forall>c\<in>set (butlast (pre @ t)). goes_on c) \<and> rejected (last (pre @ t)))"
proof
  assume "ends_well pre (t, Invalid_parameter)"
  then obtain pre' c where "pre @ t = pre' @ [c]" "\<forall>c'\<in>set pre'. goes_on c'" "rejected c"
    by (auto simp: ends_well_def)
  then show "pre @ t \<noteq> [] \<and> (\<forall>c\<in>set (butlast (pre @ t)). goes_on c) \<and> rejected (last (pre @ t))"
    by simp
next
  assume a: "pre @ t \<noteq> [] \<and> (\<forall>c\<in>set (butlast (pre @ t)). goes_on c) \<and> rejected (last (pre @ t))"
  then have "butlast (pre @ t) @ [last (pre @ t)] = pre @ t"
    by (intro append_butlast_last_id) blast
  then have "pre @ t = butlast (pre @ t) @ [last (pre @ t)]"
    by (rule sym)
  with a show "ends_well pre (t, Invalid_parameter)"
    unfolding ends_well_def by (simp only: snd_conv fst_conv outcome.case) blast
qed

lemma ends_well_error_code_exit [simp]:
  "ends_well pre (error_code_exit e f s) =
     (pre \<noteq> [] \<and> (\<forall>c\<in>set (butlast pre). goes_on c)
      \<and> exit_rule (last pre)
           (f @ '' failed with error '' @ printf_d s @ '': '' @ system_message e s) s)"
proof
  assume "ends_well pre (error_code_exit e f s)"
  then obtain pre' c msg' caption where
    eq: "pre @ [Call_MessageBox
            (f @ '' failed with error '' @ printf_d s @ '': '' @ system_message e s) ''Error'',
          Call_ExitProcess s]
        = pre' @ [c, Call_MessageBox msg' caption, Call_ExitProcess s]"
    and rest: "\<forall>c'\<in>set pre'. goes_on c'" "exit_rule c msg' s"
    unfolding ends_well_def error_code_exit_def by auto
  from eq have "pre = pre' @ [c]"
    and "msg' = f @ '' failed with error '' @ printf_d s @ '': '' @ system_message e s"
    by simp_all
  with rest show "pre \<noteq> [] \<and> (\<forall>c\<in>set (butlast pre). goes_on c)
      \<and> exit_rule (last pre)
           (f @ '' failed with error '' @ printf_d s @ '': '' @ system_message e s) s"
    by simp
next
  assume a: "pre \<noteq> [] \<and> (\<forall>c\<in>set (butlast pre). goes_on c)
      \<and> exit_rule (last pre)
           (f @ '' failed with error '' @ printf_d s @ '': '' @ system_message e s) s"
  then have "butlast pre @ [last pre] = pre"
    by (intro append_butlast_last_id) blast
  then have "pre = butlast pre @ [last pre]"
    by (rule sym)
  then have "pre @ [Call_MessageBox
          (f @ '' failed with error '' @ printf_d s @ '': '' @ system_message e s) ''Error'',
          Call_ExitProcess s]
      = butlast pre @ [last pre, Call_MessageBox
          (f @ '' failed with error '' @ printf_d s @ '': '' @ system_message e s) ''Error'',
          Call_ExitProcess s]"
    by simp
  with a show "ends_well pre (error_code_exit e f s)"
    unfolding ends_well_def error_code_exit_def
    by (simp only: snd_conv fst_conv outcome.case) blast
qed

lemma ends_well_msg_exit [simp]:
  "ends_well pre (msg_exit msg) =
     (pre \<noteq> [] \<and> (\<forall>c\<in>set (butlast pre). goes_on c) \<and> exit_rule (last pre) msg 255)"
proof
  assume "ends_well pre (msg_exit msg)"
  then obtain pre' c msg' caption where
    eq: "pre @ [Call_MessageBox msg ''ERROR'', Call_ExitProcess 255]
        = pre' @ [c, Call_MessageBox msg' caption, Call_ExitProcess 255]"
    and rest: "\<forall>c'\<in>set pre'. goes_on c'" "exit_rule c msg' 255"
    unfolding ends_well_def msg_exit_def by auto
  from eq have "pre = pre' @ [c]" and "msg' = msg"
    by simp_all
  with rest show "pre \<noteq> [] \<and> (\<forall>c\<in>set (butlast pre). goes_on c) \<and> exit_rule (last pre) msg 255"
    by simp
next
  assume a: "pre \<noteq> [] \<and> (\<forall>c\<in>set (butlast pre). goes_on c) \<and> exit_rule (last pre) msg 255"
  then have "butlast pre @ [last pre] = pre"
    by (intro append_butlast_last_id) blast
  then have "pre = butlast pre @ [last pre]"
    by (rule sym)
  then have "pre @ [Call_MessageBox msg ''ERROR'', Call_ExitProcess 255]
      = butlast pre @ [last pre, Call_MessageBox msg ''ERROR'', Call_ExitProcess 255]"
    by simp
  with a show "ends_well pre (msg_exit msg)"
    unfolding ends_well_def msg_exit_def
    by (simp only: snd_conv fst_conv outcome.case) blast
qed

lemma ends_well_prefix:
  assumes "ends_well [] m" and "\<forall>c\<in>set pre. goes_on c"
  shows "ends_well pre m"
proof (cases "snd m")
  case (Returned x)
  with assms show ?thesis by (auto simp: ends_well_def)
next
  case (Exited s)
  with assms obtain pre' c msg' caption where
    "fst m = pre' @ [c, Call_MessageBox msg' caption, Call_ExitProcess s]"
    "\<forall>c'\<in>set pre'. goes_on c'" "exit_rule c msg' s"
    by (auto simp: ends_well_def)
  then have "pre @ fst m = (pre @ pre') @ [c, Call_MessageBox msg' caption, Call_ExitProcess s]
      \<and> (\<forall>c'\<in>set (pre @ pre'). goes_on c') \<and> exit_rule c msg' s"
    using assms(2) by auto
  then show ?thesis
    unfolding ends_well_def Exited by (simp only: outcome.case) blast
next
  case Invalid_parameter
  with assms obtain pre' c where "fst m = pre' @ [c]" "\<forall>c'\<in>set pre'. goes_on c'" "rejected c"
    by (auto simp: ends_well_def)
  then have "pre @ fst m = (pre @ pre') @ [c] \<and> (\<forall>c'\<in>set (pre @ pre'). goes_on c') \<and> rejected c"
    using assms(2) by auto
  then show ?thesis
    unfolding ends_well_def Invalid_parameter by (simp only: outcome.case) blast
qed

lemma ends_well_andthen:
  assumes "ends_well pre m" and "\<And>x. snd m = Returned x \<Longrightarrow> ends_well (pre @ fst m) (f x)"
  shows "ends_well pre (andthen m f)"
proof (cases "snd m")
  case (Returned x)
  from assms(2) [OF Returned] show ?thesis
    by (cases "snd (f x)") (simp_all add: ends_well_def andthen_def Returned)
next
  case (Exited s)
  with assms(1) show ?thesis by (simp add: ends_well_def andthen_def)
next
  case Invalid_parameter
  with assms(1) show ?thesis by (simp add: ends_well_def andthen_def)
qed

lemma ends_well_ReturnedD:
  "ends_well pre m \<Longrightarrow> snd m = Returned x \<Longrightarrow> \<forall>c\<in>set (pre @ fst m). goes_on c"
  by (simp add: ends_well_def)

lemma ends_well_token_loop: "ends_well [] (token_loop e root keyname ps ctx)"
proof (induction e root keyname ps ctx rule: token_loop_induct)
  case (step e root keyname ps ctx)
  show ?case
  proof (cases "tcstok_s ctx")
    case None
    then show ?thesis by (subst token_loop_unfold) simp
  next
    case (Some tc)
    obtain token ctx' where tc: "tc = (token, ctx')" by (cases tc)
    note IH = step.IH [OF Some [unfolded tc], THEN ends_well_prefix]
    show ?thesis
      apply (subst token_loop_unfold)
      apply (simp add: Some tc butlast_append)
      apply (auto intro!: IH)
      done
  qed
qed

lemma goes_on_token_loop:
  "snd (token_loop e root keyname ps ctx) = Returned x \<Longrightarrow>
   c \<in> set (fst (token_loop e root keyname ps ctx)) \<Longrightarrow> goes_on c"
  using ends_well_ReturnedD [OF ends_well_token_loop, of e root keyname ps ctx x] by simp

lemma ends_well_scan_subkey: "ends_well [] (scan_subkey e root keyname ps)"
  apply (subst scan_subkey_unfold)
  apply (simp add: butlast_append)
  apply (intro conjI impI ends_well_andthen ends_well_prefix [OF ends_well_token_loop])
    apply (auto dest: goes_on_token_loop split: option.splits)
  done

lemma goes_on_scan_subkey:
  "snd (scan_subkey e root keyname ps) = Returned x \<Longrightarrow>
   c \<in> set (fst (scan_subkey e root keyname ps)) \<Longrightarrow> goes_on c"
  using ends_well_ReturnedD [OF ends_well_scan_subkey, of e root keyname ps x] by simp

lemma ends_well_enum_loop: "ends_well [] (enum_loop e root i ps)"
proof (induction e root i ps rule: enum_loop_induct)
  case (step e root i ps)
  show ?case
    apply (subst enum_loop_unfold)
    apply (simp add: butlast_append)
    apply (intro conjI impI ends_well_andthen ends_well_prefix [OF ends_well_scan_subkey])
      apply (auto dest: goes_on_scan_subkey
        split: sum.splits simp: done_with_def intro!: ends_well_prefix [OF step.IH])
    done
qed

lemma ends_well_find_winsync: "ends_well [] (find_winsync e)"
  apply (subst find_winsync_unfold)
  apply (simp add: butlast_append)
  apply (intro conjI impI ends_well_prefix [OF ends_well_enum_loop])
   apply simp_all
  done

lemma ends_well_tWinMain: "ends_well [] (tWinMain e lpCmdLine)"
proof (cases "snd (find_winsync e)")
  case (Returned path)
  have pre: "\<forall>c\<in>set (fst (find_winsync e)). goes_on c"
    using ends_well_ReturnedD [OF ends_well_find_winsync Returned] by simp
  show ?thesis
    apply (subst tWinMain_unfold)
    apply (simp add: Returned butlast_append)
    using pre apply (auto simp: butlast_append split: sum.splits option.splits)
    done
next
  case (Exited s)
  with ends_well_find_winsync [of e] show ?thesis
    by (subst tWinMain_unfold) (simp add: ends_well_def)
next
  case Invalid_parameter
  with ends_well_find_winsync [of e] show ?thesis
    by (subst tWinMain_unfold) (simp add: ends_well_def)
qed

lemma failed_goes_on: "failed c \<Longrightarrow> \<not> tolerated c \<Longrightarrow> \<not> goes_on c"
  by (cases c) (auto split: sum.splits)

lemma rejected_not_failed: "rejected c \<Longrightarrow> \<not> failed c"
  by (cases c) simp_all

subsection \<open>The order of the enumeration\<close>

lemma enumerations_simps [simp]:
  "enumerations [] = []"
  "enumerations (c # t) = enumerated c @ enumerations t"
  "enumerations (t @ t') = enumerations t @ enumerations t'"
  by (simp_all add: enumerations_def)

lemma enumerations_scan_call:
  "\<forall>c\<in>set t. \<forall>i n ret name. c \<noteq> Call_RegEnumKeyEx i n ret name \<Longrightarrow> enumerations t = []"
proof (induction t)
  case Nil
  show ?case by simp
next
  case (Cons c t)
  then show ?case by (cases c) simp_all
qed

lemma token_loop_no_enumeration:
  "Call_RegEnumKeyEx i n ret name \<notin> set (fst (token_loop e root keyname ps ctx))"
proof (induction e root keyname ps ctx rule: token_loop_induct)
  case (step e root keyname ps ctx)
  show ?case
  proof (cases "tcstok_s ctx")
    case None
    then show ?thesis
      unfolding token_loop_unfold [of e root keyname ps ctx] by simp
  next
    case (Some tc)
    obtain token ctx' where tc: "tc = (token, ctx')" by (cases tc)
    note IH = step.IH [OF Some [unfolded tc]]
    show ?thesis
      unfolding token_loop_unfold [of e root keyname ps ctx]
      using IH by (auto simp: Some tc split: if_splits)
  qed
qed

lemma scan_subkey_no_enumeration:
  "Call_RegEnumKeyEx i n ret name \<notin> set (fst (scan_subkey e root keyname ps))"
  unfolding scan_subkey_unfold [of e root keyname ps]
  using token_loop_no_enumeration
  by (auto simp: fst_andthen split: if_splits outcome.splits option.splits)

lemma enumerations_scan_subkey [simp]:
  "enumerations (fst (scan_subkey e root keyname ps)) = []"
  by (rule enumerations_scan_call) (auto simp: scan_subkey_no_enumeration)

subsection \<open>What a return tells\<close>

lemma token_loop_Returned:
  "snd (token_loop e root keyname ps ctx) = Returned found \<Longrightarrow>
     (case found of
        Some path \<Rightarrow>
          list_ex (\<lambda>token. file_attributes e (token @ site_packages_winsync) \<noteq> INVALID_FILE_ATTRIBUTES)
            (tokens ctx)
          \<and> default_value root (keyname @ InstallPath) = (ERROR_SUCCESS, path)
      | None \<Rightarrow>
          \<not> list_ex (\<lambda>token. file_attributes e (token @ site_packages_winsync) \<noteq> INVALID_FILE_ATTRIBUTES)
            (tokens ctx))"
proof (induction e root keyname ps ctx rule: token_loop_induct)
  case (step e root keyname ps ctx)
  show ?case
  proof (cases "tcstok_s ctx")
    case None
    with step.prems show ?thesis
      by (subst (asm) token_loop_unfold) (auto simp: tokens.simps [of ctx])
  next
    case (Some tc)
    obtain token ctx' where tc: "tc = (token, ctx')" by (cases tc)
    note IH = step.IH [OF Some [unfolded tc]]
    have tok: "tokens ctx = token # tokens ctx'"
      by (subst tokens.simps) (simp add: Some tc)
    from step.prems get_value_success [of "charset e" root "keyname @ InstallPath" ps]
    show ?thesis
      apply (subst (asm) token_loop_unfold)
      apply (auto simp: Some tc tok split: if_splits option.splits dest: IH)
      done
  qed
qed

lemma scan_subkey_Returned:
  "snd (scan_subkey e root keyname ps) = Returned r \<Longrightarrow>
     (case r of
        Inl path \<Rightarrow> has_winsync e root keyname
          \<and> default_value root (keyname @ InstallPath) = (ERROR_SUCCESS, path)
      | Inr ps' \<Rightarrow> passed_over e root keyname)"
  using get_value_success [of "charset e" root "keyname @ PythonPath" ps]
    get_value_2_value [of "charset e" root "keyname @ PythonPath" ps]
  unfolding scan_subkey_unfold [of e root keyname ps]
  by (auto simp: has_winsync_def passed_over_def snd_andthen
      split: if_splits outcome.splits option.splits sum.splits dest!: token_loop_Returned)

lemma enum_loop_cases:
  assumes "snd (enum_loop e root i ps) = Returned path"
  obtains (found) "i < length (subkeys root)"
      "snd (scan_subkey e root (subkeys root ! i) ps) = Returned (Inl path)"
      "fst (enum_loop e root i ps) =
         Call_RegEnumKeyEx i MAX_PATH ERROR_SUCCESS (subkeys root ! i)
           # fst (scan_subkey e root (subkeys root ! i) ps)"
    | (skipped) ps' where "i < length (subkeys root)"
      "fst (enum_key root i MAX_PATH) = ERROR_SUCCESS"
      "snd (scan_subkey e root (subkeys root ! i) ps) = Returned (Inr ps')"
      "snd (enum_loop e root (Suc i) ps') = Returned path"
      "fst (enum_loop e root i ps) =
         Call_RegEnumKeyEx i MAX_PATH ERROR_SUCCESS (subkeys root ! i)
           # fst (scan_subkey e root (subkeys root ! i) ps) @ fst (enum_loop e root (Suc i) ps')"
proof -
  let ?r = "enum_key root i MAX_PATH"
  from assms have ok: "fst ?r = ERROR_SUCCESS"
    unfolding enum_loop_unfold [of e root i ps] by (auto split: if_splits)
  then have i: "i < length (subkeys root)" and name: "snd ?r = subkeys root ! i"
    using enum_key_success [of root i MAX_PATH] by simp_all
  from assms ok obtain r where r: "snd (scan_subkey e root (subkeys root ! i) ps) = Returned r"
    unfolding enum_loop_unfold [of e root i ps]
    by (auto simp: name snd_andthen split: outcome.splits)
  show thesis
  proof (cases r)
    case (Inl p)
    with assms ok r have "p = path"
      unfolding enum_loop_unfold [of e root i ps]
      by (simp add: name snd_andthen done_with_def)
    with ok r Inl i show thesis
      by (intro found) (simp_all add: enum_loop_unfold [of e root i ps] name fst_andthen
          done_with_def)
  next
    case (Inr ps')
    with assms ok r have "snd (enum_loop e root (Suc i) ps') = Returned path"
      unfolding enum_loop_unfold [of e root i ps]
      by (simp add: name snd_andthen)
    with ok r Inr i show thesis
      by (intro skipped [of ps']) (simp_all add: enum_loop_unfold [of e root i ps] name
          fst_andthen)
  qed
qed

lemma enum_loop_Returned:
  "snd (enum_loop e root i ps) = Returned path \<Longrightarrow>
     \<exists>k. i \<le> k \<and> k < length (subkeys root) \<and> has_winsync e root (subkeys root ! k)
       \<and> default_value root (subkeys root ! k @ InstallPath) = (ERROR_SUCCESS, path)
       \<and> (\<forall>j. i \<le> j \<and> j < k \<longrightarrow> passed_over e root (subkeys root ! j))
       \<and> enumerations (fst (enum_loop e root i ps)) = [i..<Suc k]"
proof (induction e root i ps rule: enum_loop_induct)
  case (step e root i ps)
  from step.prems show ?case
  proof (cases rule: enum_loop_cases)
    case found
    from scan_subkey_Returned [OF found(2)] found(1,3) show ?thesis
      by (intro exI [of _ i]) auto
  next
    case (skipped ps')
    from step.IH [OF skipped(2) _ skipped(4)] skipped(2,3) enum_key_success [of root i MAX_PATH]
    obtain k where
      k: "Suc i \<le> k" "k < length (subkeys root)" "has_winsync e root (subkeys root ! k)"
        "default_value root (subkeys root ! k @ InstallPath) = (ERROR_SUCCESS, path)"
        "\<forall>j. Suc i \<le> j \<and> j < k \<longrightarrow> passed_over e root (subkeys root ! j)"
        "enumerations (fst (enum_loop e root (Suc i) ps')) = [Suc i..<Suc k]"
      by auto
    have here: "passed_over e root (subkeys root ! i)"
      using scan_subkey_Returned [OF skipped(3)] by simp
    have "\<forall>j. i \<le> j \<and> j < k \<longrightarrow> passed_over e root (subkeys root ! j)"
    proof (intro allI impI)
      fix j assume "i \<le> j \<and> j < k"
      then consider "j = i" | "Suc i \<le> j \<and> j < k" by linarith
      then show "passed_over e root (subkeys root ! j)"
        using here k(5) by cases auto
    qed
    moreover from k(1,6) skipped(5)
    have "enumerations (fst (enum_loop e root i ps)) = [i..<Suc k]"
      by (simp add: upt_conv_Cons)
    ultimately show ?thesis using k(1-4)
      by (intro exI [of _ k]) auto
  qed
qed

lemma find_winsync_Returned:
  assumes "snd (find_winsync e) = Returned path"
  shows "\<exists>root k. opened_key e = Some root \<and> first_install e root k
    \<and> default_value root (subkeys root ! k @ InstallPath) = (ERROR_SUCCESS, path)
    \<and> enumerations (fst (find_winsync e)) = [0..<Suc k]"
proof -
  from assms obtain root where root: "opened_key e = Some root"
    and loop: "snd (enum_loop e root 0 MAX_PATH) = Returned path"
    and t: "enumerations (fst (find_winsync e)) = enumerations (fst (enum_loop e root 0 MAX_PATH))"
    unfolding find_winsync_unfold [of e] opened_key_def
    by (auto split: if_splits)
  from enum_loop_Returned [OF loop] root t show ?thesis
    unfolding first_install_def by auto
qed

subsection \<open>The last call before a return\<close>

lemma token_loop_last:
  "snd (token_loop e root keyname ps ctx) = Returned (Some path) \<Longrightarrow>
     fst (token_loop e root keyname ps ctx) \<noteq> [] \<and>
     last (fst (token_loop e root keyname ps ctx))
       = Call_RegGetValue (keyname @ InstallPath) ps ERROR_SUCCESS path"
proof (induction e root keyname ps ctx rule: token_loop_induct)
  case (step e root keyname ps ctx)
  show ?case
  proof (cases "tcstok_s ctx")
    case None
    with step.prems show ?thesis
      by (subst (asm) token_loop_unfold) simp
  next
    case (Some tc)
    obtain token ctx' where tc: "tc = (token, ctx')" by (cases tc)
    note IH = step.IH [OF Some [unfolded tc]]
    from step.prems show ?thesis
      unfolding token_loop_unfold [of e root keyname ps ctx]
      by (auto simp: Some tc split: if_splits dest: IH)
  qed
qed

lemma scan_subkey_last:
  "snd (scan_subkey e root keyname ps) = Returned (Inl path) \<Longrightarrow>
     fst (scan_subkey e root keyname ps) \<noteq> [] \<and>
     (\<exists>cb. last (fst (scan_subkey e root keyname ps))
        = Call_RegGetValue (keyname @ InstallPath) cb ERROR_SUCCESS path)"
  unfolding scan_subkey_unfold [of e root keyname ps]
  by (auto simp: snd_andthen fst_andthen split: if_splits outcome.splits option.splits
      dest: token_loop_last)

lemma enum_loop_last:
  "snd (enum_loop e root i ps) = Returned path \<Longrightarrow>
     fst (enum_loop e root i ps) \<noteq> [] \<and>
     (\<exists>k cb. k < length (subkeys root) \<and> last (fst (enum_loop e root i ps))
        = Call_RegGetValue (subkeys root ! k @ InstallPath) cb ERROR_SUCCESS path)"
proof (induction e root i ps rule: enum_loop_induct)
  case (step e root i ps)
  from step.prems show ?case
  proof (cases rule: enum_loop_cases)
    case found
    with scan_subkey_last [OF found(2)] show ?thesis by auto
  next
    case (skipped ps')
    from step.IH [OF skipped(2) _ skipped(4)] skipped(2,3) enum_key_success [of root i MAX_PATH]
    have "fst (enum_loop e root (Suc i) ps') \<noteq> [] \<and>
     (\<exists>k cb. k < length (subkeys root) \<and> last (fst (enum_loop e root (Suc i) ps'))
        = Call_RegGetValue (subkeys root ! k @ InstallPath) cb ERROR_SUCCESS path)"
      by simp
    with skipped(5) show ?thesis by auto
  qed
qed

lemma find_winsync_last:
  assumes "snd (find_winsync e) = Returned path"
  shows "\<exists>pre sub cb. fst (find_winsync e) = pre @ [Call_RegGetValue sub cb ERROR_SUCCESS path]
    \<and> suffix InstallPath sub"
proof -
  from assms have "fst (find_winsync e) \<noteq> [] \<and>
     (\<exists>sub cb. last (fst (find_winsync e)) = Call_RegGetValue sub cb ERROR_SUCCESS path
        \<and> suffix InstallPath sub)"
    unfolding find_winsync_unfold [of e]
    by (auto split: if_splits dest!: enum_loop_last)
  then obtain sub cb where ne: "fst (find_winsync e) \<noteq> []"
    and l: "last (fst (find_winsync e)) = Call_RegGetValue sub cb ERROR_SUCCESS path"
    and s: "suffix InstallPath sub"
    by blast
  from ne have "fst (find_winsync e) = butlast (fst (find_winsync e)) @ [last (fst (find_winsync e))]"
    by simp
  with l s show ?thesis by metis
qed

subsection \<open>The read of InstallPath decides\<close>

lemma token_loop_reads:
  "Call_RegGetValue sub cb ret v \<in> set (fst (token_loop e root keyname ps ctx)) \<Longrightarrow>
     sub = keyname @ InstallPath \<and>
     (ret = ERROR_SUCCESS \<and> snd (token_loop e root keyname ps ctx) = Returned (Some v)
      \<or> ret \<noteq> ERROR_SUCCESS \<and> snd (token_loop e root keyname ps ctx) = Exited ret)"
proof (induction e root keyname ps ctx rule: token_loop_induct)
  case (step e root keyname ps ctx)
  show ?case
  proof (cases "tcstok_s ctx")
    case None
    with step.prems show ?thesis
      unfolding token_loop_unfold [of e root keyname ps ctx] by simp
  next
    case (Some tc)
    obtain token ctx' where tc: "tc = (token, ctx')" by (cases tc)
    note IH = step.IH [OF Some [unfolded tc]]
    from step.prems show ?thesis
      unfolding token_loop_unfold [of e root keyname ps ctx]
      by (auto simp: Some tc split: if_splits dest: IH)
  qed
qed

lemma scan_subkey_reads:
  "Call_RegGetValue sub cb ret v \<in> set (fst (scan_subkey e root keyname ps)) \<Longrightarrow>
   suffix InstallPath sub \<Longrightarrow>
     ret = ERROR_SUCCESS \<and> snd (scan_subkey e root keyname ps) = Returned (Inl v)
     \<or> ret \<noteq> ERROR_SUCCESS \<and> snd (scan_subkey e root keyname ps) = Exited ret"
  unfolding scan_subkey_unfold [of e root keyname ps]
  by (auto simp: snd_andthen fst_andthen split: if_splits outcome.splits option.splits
      dest!: token_loop_reads)

lemma enum_loop_reads:
  "Call_RegGetValue sub cb ret v \<in> set (fst (enum_loop e root i ps)) \<Longrightarrow>
   suffix InstallPath sub \<Longrightarrow>
     ret = ERROR_SUCCESS \<and> snd (enum_loop e root i ps) = Returned v
     \<or> ret \<noteq> ERROR_SUCCESS \<and> snd (enum_loop e root i ps) = Exited ret"
proof (induction e root i ps rule: enum_loop_induct)
  case (step e root i ps)
  let ?k = "snd (enum_key root i MAX_PATH)"
  from step.prems(1) have ok: "fst (enum_key root i MAX_PATH) = ERROR_SUCCESS"
    unfolding enum_loop_unfold [of e root i ps] by (auto split: if_splits)
  from step.prems(1) ok consider
      (here) "Call_RegGetValue sub cb ret v \<in> set (fst (scan_subkey e root ?k ps))"
    | (later) ps' where "snd (scan_subkey e root ?k ps) = Returned (Inr ps')"
        "Call_RegGetValue sub cb ret v \<in> set (fst (enum_loop e root (Suc i) ps'))"
    unfolding enum_loop_unfold [of e root i ps]
    by (auto simp: fst_andthen done_with_def split: outcome.splits sum.splits)
  then show ?case
  proof cases
    case here
    from scan_subkey_reads [OF here step.prems(2)] ok show ?thesis
      unfolding enum_loop_unfold [of e root i ps]
      by (auto simp: snd_andthen done_with_def)
  next
    case (later ps')
    from step.IH [OF ok later(1) later(2) step.prems(2)] ok later(1) show ?thesis
      unfolding enum_loop_unfold [of e root i ps]
      by (auto simp: snd_andthen)
  qed
qed

lemma find_winsync_reads:
  "Call_RegGetValue sub cb ret v \<in> set (fst (find_winsync e)) \<Longrightarrow>
   suffix InstallPath sub \<Longrightarrow>
     ret = ERROR_SUCCESS \<and> snd (find_winsync e) = Returned v
     \<or> ret \<noteq> ERROR_SUCCESS \<and> snd (find_winsync e) = Exited ret"
  unfolding find_winsync_unfold [of e]
  by (auto split: if_splits dest: enum_loop_reads)

subsection \<open>A probe that finds winsync\<close>

lemma token_loop_probe:
  "Call_GetFileAttributes p a \<in> set (fst (token_loop e root keyname ps ctx)) \<Longrightarrow>
   a \<noteq> INVALID_FILE_ATTRIBUTES \<Longrightarrow>
     (\<exists>ret v. Call_RegGetValue (keyname @ InstallPath) ps ret v
         \<in> set (fst (token_loop e root keyname ps ctx)))
     \<or> snd (token_loop e root keyname ps ctx) = Invalid_parameter"
proof (induction e root keyname ps ctx rule: token_loop_induct)
  case (step e root keyname ps ctx)
  show ?case
  proof (cases "tcstok_s ctx")
    case None
    with step.prems show ?thesis
      unfolding token_loop_unfold [of e root keyname ps ctx] by simp
  next
    case (Some tc)
    obtain token ctx' where tc: "tc = (token, ctx')" by (cases tc)
    note IH = step.IH [OF Some [unfolded tc]]
    from step.prems show ?thesis
      unfolding token_loop_unfold [of e root keyname ps ctx]
      by (auto simp: Some tc split: if_splits dest: IH)
  qed
qed

lemma scan_subkey_probe:
  "Call_GetFileAttributes p a \<in> set (fst (scan_subkey e root keyname ps)) \<Longrightarrow>
   a \<noteq> INVALID_FILE_ATTRIBUTES \<Longrightarrow>
     (\<exists>cb ret v. Call_RegGetValue (keyname @ InstallPath) cb ret v
         \<in> set (fst (scan_subkey e root keyname ps)))
     \<or> snd (scan_subkey e root keyname ps) = Invalid_parameter"
  unfolding scan_subkey_unfold [of e root keyname ps]
  by (auto simp: snd_andthen fst_andthen split: if_splits outcome.splits option.splits
      dest!: token_loop_probe)

lemma enum_loop_probe:
  "Call_GetFileAttributes p a \<in> set (fst (enum_loop e root i ps)) \<Longrightarrow>
   a \<noteq> INVALID_FILE_ATTRIBUTES \<Longrightarrow>
     (\<exists>sub cb ret v. Call_RegGetValue sub cb ret v \<in> set (fst (enum_loop e root i ps))
        \<and> suffix InstallPath sub)
     \<or> snd (enum_loop e root i ps) = Invalid_parameter"
proof (induction e root i ps rule: enum_loop_induct)
  case (step e root i ps)
  let ?k = "snd (enum_key root i MAX_PATH)"
  from step.prems(1) have ok: "fst (enum_key root i MAX_PATH) = ERROR_SUCCESS"
    unfolding enum_loop_unfold [of e root i ps] by (auto split: if_splits)
  from step.prems(1) ok consider
      (here) "Call_GetFileAttributes p a \<in> set (fst (scan_subkey e root ?k ps))"
    | (later) ps' where "snd (scan_subkey e root ?k ps) = Returned (Inr ps')"
        "Call_GetFileAttributes p a \<in> set (fst (enum_loop e root (Suc i) ps'))"
    unfolding enum_loop_unfold [of e root i ps]
    by (auto simp: fst_andthen done_with_def split: outcome.splits sum.splits)
  then show ?case
  proof cases
    case here
    from scan_subkey_probe [OF here step.prems(2)] ok show ?thesis
      unfolding enum_loop_unfold [of e root i ps]
      by (auto simp: snd_andthen fst_andthen done_with_def split: outcome.splits sum.splits
          intro: suffix_InstallPath)
  next
    case (later ps')
    from step.IH [OF ok later(1) later(2) step.prems(2)] ok later(1) show ?thesis
      unfolding enum_loop_unfold [of e root i ps]
      by (auto simp: snd_andthen fst_andthen)
  qed
qed

lemma find_winsync_probe:
  "Call_GetFileAttributes p a \<in> set (fst (find_winsync e)) \<Longrightarrow>
   a \<noteq> INVALID_FILE_ATTRIBUTES \<Longrightarrow>
     (\<exists>sub cb ret v. Call_RegGetValue sub cb ret v \<in> set (fst (find_winsync e))
        \<and> suffix InstallPath sub)
     \<or> snd (find_winsync e) = Invalid_parameter"
  unfolding find_winsync_unfold [of e]
  by (auto split: if_splits dest!: enum_loop_probe)

subsection \<open>A call that stops the run\<close>




subsection \<open>The scan over leftover entries\<close>









subsection \<open>The state threaded through the calls\<close>





text \<open>A read through the handle is not answered before a key was opened.\<close>

lemma replay_unopened: "replay cs (system_of e) [Call_RegEnumKeyEx i n ret name] = None"
  by (simp add: system_of_def)








subsection \<open>The runs on the machines\<close>

lemma tWinMain_no_python:
  "tWinMain no_python [] =
     ([Call_RegOpenKeyEx (keys ! 0) (KEY_READ OR KEY_ENUMERATE_SUB_KEYS) 2,
       Call_RegOpenKeyEx (keys ! 1) (KEY_READ OR KEY_ENUMERATE_SUB_KEYS) 2,
       Call_MessageBox ''RegOpenKeyEx failed with error 2: The system cannot find the file specified.''
         ''Error'',
       Call_ExitProcess 2], Exited 2)"
  by (simp add: tWinMain_unfold find_winsync_unfold no_python_def ERROR_SUCCESS_def
      error_code_exit_def after_def printf_d_def decimal.simps)

lemma find_winsync_wow64_machine:
  "find_winsync wow64_machine =
     ([Call_RegOpenKeyEx (keys ! 0) (KEY_READ OR KEY_ENUMERATE_SUB_KEYS) 2,
       Call_RegOpenKeyEx (keys ! 1) (KEY_READ OR KEY_ENUMERATE_SUB_KEYS) ERROR_SUCCESS,
       Call_RegEnumKeyEx 0 MAX_PATH ERROR_SUCCESS ''2.6'',
       Call_tcscpy_s MAX_PATH ''2.6'' True,
       Call_tcscat_s MAX_PATH ''2.6'' PythonPath True,
       Call_RegGetValue (''2.6'' @ PythonPath) MAX_PATH 2 [],
       Call_RegEnumKeyEx 1 MAX_PATH ERROR_SUCCESS ''2.7'',
       Call_tcscpy_s MAX_PATH ''2.7'' True,
       Call_tcscat_s MAX_PATH ''2.7'' PythonPath True,
       Call_RegGetValue (''2.7'' @ PythonPath) MAX_PATH ERROR_SUCCESS Python27_Lib,
       Call_tcscpy_s MAX_PATH Python27_Lib True,
       Call_tcscat_s MAX_PATH Python27_Lib site_packages_winsync True,
       Call_GetFileAttributes (Python27_Lib @ site_packages_winsync) 16,
       Call_tcscpy_s MAX_PATH ''2.7'' True,
       Call_tcscat_s MAX_PATH ''2.7'' InstallPath True,
       Call_RegGetValue (''2.7'' @ InstallPath) 32 ERROR_SUCCESS Python27],
      Returned Python27)"
  by (simp add: find_winsync_unfold enum_loop_unfold [of _ _ 0]
      enum_loop_unfold [of _ _ "Suc 0"] scan_subkey_unfold
      token_loop_unfold [of _ _ _ _ Python27_Lib, unfolded Python27_Lib_def append.simps]
      wow64_machine_def core_key_def no_key_def enum_key_def get_value_def
      MAX_PATH_def ERROR_SUCCESS_def INVALID_FILE_ATTRIBUTES_def tcstok_s_def
      PythonPath_def InstallPath_def site_packages_winsync_def keys_def done_with_def after_def
      Python27_Lib_def Python27_def)

lemma tWinMain_wow64_machine:
  "tWinMain wow64_machine [] =
     (fst (find_winsync wow64_machine) @
      [Call_tcscpy_s MAX_PATH Python27 True,
       Call_tcscat_s MAX_PATH Python27 ''python.exe'' True,
       Call_tcscat_s MAX_PATH (Python27 @ ''python.exe'') '' -m winsync.run'' True,
       Call_CreateProcess (Python27 @ ''python.exe'' @ '' -m winsync.run'') Python27 (Inr (100, 104)),
       Call_WaitForSingleObject 100 INFINITE WAIT_OBJECT_0 0,
       Call_CloseHandle 100 None,
       Call_CloseHandle 104 None],
      Returned ())"
  apply (subst tWinMain_unfold)
  apply (simp add: find_winsync_wow64_machine)
  apply (simp add: wow64_machine_def Python27_def MAX_PATH_def after_def WAIT_OBJECT_0_def
      WAIT_ABANDONED_def WAIT_TIMEOUT_def WAIT_FAILED_def)
  done

lemma has_winsync_27:
  "has_winsync wow64_machine core_key ''2.7''" "has_winsync orphaned orphan_key ''2.7''"
  unfolding has_winsync_def
   apply (subst tokens.simps)
   apply (simp add: wow64_machine_def core_key_def PythonPath_def ERROR_SUCCESS_def
      tcstok_s_def Python27_Lib_def site_packages_winsync_def INVALID_FILE_ATTRIBUTES_def)
  apply (subst tokens.simps)
  apply (simp add: orphaned_def wow64_machine_def orphan_key_def PythonPath_def ERROR_SUCCESS_def
      tcstok_s_def Python27_Lib_def site_packages_winsync_def INVALID_FILE_ATTRIBUTES_def)
  done

lemma find_winsync_orphaned:
  "find_winsync orphaned =
     ([Call_RegOpenKeyEx (keys ! 0) (KEY_READ OR KEY_ENUMERATE_SUB_KEYS) ERROR_SUCCESS,
       Call_RegEnumKeyEx 0 MAX_PATH ERROR_SUCCESS ''2.7'',
       Call_tcscpy_s MAX_PATH ''2.7'' True,
       Call_tcscat_s MAX_PATH ''2.7'' PythonPath True,
       Call_RegGetValue (''2.7'' @ PythonPath) MAX_PATH ERROR_SUCCESS Python27_Lib,
       Call_tcscpy_s MAX_PATH Python27_Lib True,
       Call_tcscat_s MAX_PATH Python27_Lib site_packages_winsync True,
       Call_GetFileAttributes (Python27_Lib @ site_packages_winsync) 16,
       Call_tcscpy_s MAX_PATH ''2.7'' True,
       Call_tcscat_s MAX_PATH ''2.7'' InstallPath True,
       Call_RegGetValue (''2.7'' @ InstallPath) 32 2 [],
       Call_MessageBox
         ''RegGetValue (installpath) failed with error 2: The system cannot find the file specified.''
         ''Error'',
       Call_ExitProcess 2],
      Exited 2)"
  by (simp add: find_winsync_unfold enum_loop_unfold [of _ _ 0] scan_subkey_unfold
      token_loop_unfold [of _ _ _ _ Python27_Lib, unfolded Python27_Lib_def append.simps]
      orphaned_def wow64_machine_def orphan_key_def enum_key_def get_value_def
      MAX_PATH_def ERROR_SUCCESS_def INVALID_FILE_ATTRIBUTES_def tcstok_s_def
      PythonPath_def InstallPath_def site_packages_winsync_def keys_def done_with_def after_def
      Python27_Lib_def error_code_exit_def printf_d_def decimal.simps)

lemma find_winsync_long_name:
  "find_winsync long_name =
     ([Call_RegOpenKeyEx (keys ! 0) (KEY_READ OR KEY_ENUMERATE_SUB_KEYS) ERROR_SUCCESS,
       Call_RegEnumKeyEx 0 MAX_PATH ERROR_SUCCESS (replicate 249 (CHR ''x'')),
       Call_tcscpy_s MAX_PATH (replicate 249 (CHR ''x'')) True,
       Call_tcscat_s MAX_PATH (replicate 249 (CHR ''x'')) PythonPath False],
      Invalid_parameter)"
  by (simp add: find_winsync_unfold enum_loop_unfold [of _ _ 0] scan_subkey_unfold
      long_name_def wow64_machine_def long_name_key_def enum_key_def
      MAX_PATH_def ERROR_SUCCESS_def after_def)

lemma find_winsync_two_pythons:
  "find_winsync two_pythons =
     ([Call_RegOpenKeyEx (keys ! 0) (KEY_READ OR KEY_ENUMERATE_SUB_KEYS) ERROR_SUCCESS,
       Call_RegEnumKeyEx 0 MAX_PATH ERROR_SUCCESS ''2.7'',
       Call_tcscpy_s MAX_PATH ''2.7'' True,
       Call_tcscat_s MAX_PATH ''2.7'' PythonPath True,
       Call_RegGetValue (''2.7'' @ PythonPath) MAX_PATH ERROR_SUCCESS Python27_Lib,
       Call_tcscpy_s MAX_PATH Python27_Lib True,
       Call_tcscat_s MAX_PATH Python27_Lib site_packages_winsync True,
       Call_GetFileAttributes (Python27_Lib @ site_packages_winsync) INVALID_FILE_ATTRIBUTES,
       Call_RegEnumKeyEx 1 MAX_PATH ERROR_SUCCESS ''3.3'',
       Call_tcscpy_s MAX_PATH ''3.3'' True,
       Call_tcscat_s MAX_PATH ''3.3'' PythonPath True,
       Call_RegGetValue (''3.3'' @ PythonPath) 32 ERROR_MORE_DATA [],
       Call_MessageBox ''RegGetValue failed with error 234: More data is available.'' ''Error'',
       Call_ExitProcess 234],
      Exited 234)"
  by (simp add: find_winsync_unfold enum_loop_unfold [of _ _ 0]
      enum_loop_unfold [of _ _ "Suc 0"] scan_subkey_unfold
      token_loop_unfold [of _ _ _ _ Python27_Lib, unfolded Python27_Lib_def append.simps]
      token_loop_unfold [of _ _ _ _ "[]"]
      two_pythons_def two_pythons_key_def no_key_def enum_key_def get_value_def
      MAX_PATH_def ERROR_SUCCESS_def ERROR_MORE_DATA_def INVALID_FILE_ATTRIBUTES_def tcstok_s_def
      PythonPath_def InstallPath_def site_packages_winsync_def keys_def done_with_def after_def
      Python27_Lib_def Python27_def Python33_Lib_def Python33_DLLs_def Python33_def
      error_code_exit_def printf_d_def decimal.simps)

lemma has_winsync_33: "has_winsync two_pythons two_pythons_key ''3.3''"
  unfolding has_winsync_def
  apply (subst tokens.simps)
  apply (simp add: two_pythons_key_def two_pythons_def PythonPath_def ERROR_SUCCESS_def
      tcstok_s_def Python33_Lib_def Python33_DLLs_def site_packages_winsync_def
      INVALID_FILE_ATTRIBUTES_def)
  done

lemma passed_over_27: "passed_over two_pythons two_pythons_key ''2.7''"
  unfolding passed_over_def has_winsync_def
  apply (subst tokens.simps)
  apply (subst tokens.simps)
  apply (simp add: two_pythons_key_def two_pythons_def PythonPath_def ERROR_SUCCESS_def
      tcstok_s_def Python27_Lib_def Python33_Lib_def site_packages_winsync_def
      INVALID_FILE_ATTRIBUTES_def)
  done


lemma first_install_33: "first_install two_pythons two_pythons_key 1"
  unfolding first_install_def
  using passed_over_27 has_winsync_33 by (simp add: two_pythons_key_def)
section \<open>The claims\<close>

text \<open>
  Claim C1 fails on the code. The comment of lines 22 to 24 has \<^verbatim>\<open>find_winsync\<close> send
  back the path of the Python installation that has winsync. On a machine with Python 2.7
  and 3.3, winsync being installed in 3.3, the key that opens has the two names; 2.7 is
  passed over, its \<^verbatim>\<open>PythonPath\<close> being read and no token of it having winsync; 3.3 is
  the first name that has winsync, and its \<^verbatim>\<open>InstallPath\<close> value is there. The scan
  enumerates both names and probes no token of 3.3: the read of its \<^verbatim>\<open>PythonPath\<close> is
  offered the 32 bytes the read for 2.7 has left in \<^verbatim>\<open>path_size\<close> (line 86 sets it and
  nothing restores it, where line 150 restores \<^verbatim>\<open>name_size\<close>), returns
  \<^verbatim>\<open>ERROR_MORE_DATA\<close>, and the process ends with status 234 where the claim has
  \<^verbatim>\<open>find_winsync\<close> return the \<^verbatim>\<open>InstallPath\<close> of 3.3.
\<close>

theorem first_install_not_returned:
  "opened_key two_pythons = Some two_pythons_key
   \<and> subkeys two_pythons_key = [''2.7'', ''3.3'']
   \<and> passed_over two_pythons two_pythons_key ''2.7''
   \<and> has_winsync two_pythons two_pythons_key ''3.3''
   \<and> default_value two_pythons_key (''3.3'' @ InstallPath) = (ERROR_SUCCESS, Python33)
   \<and> enumerations (fst (find_winsync two_pythons)) = [0, 1]
   \<and> Call_RegGetValue (''3.3'' @ PythonPath) 32 ERROR_MORE_DATA []
       \<in> set (fst (find_winsync two_pythons))
   \<and> Call_GetFileAttributes (Python33_Lib @ site_packages_winsync) 16
       \<notin> set (fst (find_winsync two_pythons))
   \<and> snd (find_winsync two_pythons) = Exited 234"
proof -
  have "Call_GetFileAttributes (Python33_Lib @ site_packages_winsync) 16
       \<notin> set (fst (find_winsync two_pythons))"
    by (simp add: find_winsync_two_pythons INVALID_FILE_ATTRIBUTES_def)
  moreover
  have "opened_key two_pythons = Some two_pythons_key"
    by (simp add: opened_key_def two_pythons_def)
  moreover have "subkeys two_pythons_key = [''2.7'', ''3.3'']"
    by (simp add: two_pythons_key_def)
  moreover have "default_value two_pythons_key (''3.3'' @ InstallPath) = (ERROR_SUCCESS, Python33)"
    by (simp add: two_pythons_key_def PythonPath_def InstallPath_def)
  moreover have "enumerations (fst (find_winsync two_pythons)) = [0, 1]"
    by (simp add: find_winsync_two_pythons)
  moreover have "Call_RegGetValue (''3.3'' @ PythonPath) 32 ERROR_MORE_DATA []
       \<in> set (fst (find_winsync two_pythons))"
    by (simp add: find_winsync_two_pythons)
  moreover have "snd (find_winsync two_pythons) = Exited 234"
    by (simp add: find_winsync_two_pythons)
  ultimately show ?thesis
    using passed_over_27 has_winsync_33 by blast
qed

text \<open>
  Claim C2, as the code has it. A call that failed and is not one of the three the source
  goes on after (\<open>tolerated\<close>: \<^verbatim>\<open>RegOpenKeyEx\<close> on the first key, \<^verbatim>\<open>RegGetValue\<close>
  of a \<^verbatim>\<open>PythonPath\<close> subkey returning 2, \<^verbatim>\<open>GetFileAttributes\<close>) is followed by the
  message box and \<^verbatim>\<open>ExitProcess\<close> and by nothing else, and the process ends with that
  status.
\<close>

theorem failures_terminal:
  assumes "c \<in> set (fst (tWinMain e lpCmdLine))" and "failed c" and "\<not> tolerated c"
  shows "\<exists>pre msg caption s.
     fst (tWinMain e lpCmdLine) = pre @ [c, Call_MessageBox msg caption, Call_ExitProcess s]
     \<and> snd (tWinMain e lpCmdLine) = Exited s"
proof (cases "snd (tWinMain e lpCmdLine)")
  case (Returned x)
  with ends_well_tWinMain [of e lpCmdLine] assms(1) have "goes_on c"
    by (simp add: ends_well_def)
  with failed_goes_on [OF assms(2,3)] show ?thesis by simp
next
  case (Exited s)
  with ends_well_tWinMain [of e lpCmdLine] obtain pre c' msg caption where
    t: "fst (tWinMain e lpCmdLine) = pre @ [c', Call_MessageBox msg caption, Call_ExitProcess s]"
    and pre: "\<forall>x\<in>set pre. goes_on x"
    by (auto simp: ends_well_def)
  from assms(1) t have "c \<in> set pre \<or> c = c' \<or> c = Call_MessageBox msg caption
      \<or> c = Call_ExitProcess s"
    by auto
  with pre failed_goes_on [OF assms(2,3)] assms(2) have "c = c'" by auto
  with t Exited show ?thesis by blast
next
  case Invalid_parameter
  with ends_well_tWinMain [of e lpCmdLine] obtain pre c' where
    t: "fst (tWinMain e lpCmdLine) = pre @ [c']"
    and pre: "\<forall>x\<in>set pre. goes_on x" and rej: "rejected c'"
    by (auto simp: ends_well_def)
  from assms(1) t have "c \<in> set pre \<or> c = c'" by auto
  with pre failed_goes_on [OF assms(2,3)] rejected_not_failed [OF rej] assms(2) show ?thesis
    by auto
qed

text \<open>The second \<^verbatim>\<open>RegOpenKeyEx\<close> on the machine with neither key.\<close>

theorem failures_terminal_witness:
  "Call_RegOpenKeyEx (keys ! 1) (KEY_READ OR KEY_ENUMERATE_SUB_KEYS) 2
     \<in> set (fst (tWinMain no_python []))
   \<and> failed (Call_RegOpenKeyEx (keys ! 1) (KEY_READ OR KEY_ENUMERATE_SUB_KEYS) 2)
   \<and> \<not> tolerated (Call_RegOpenKeyEx (keys ! 1) (KEY_READ OR KEY_ENUMERATE_SUB_KEYS) 2)
   \<and> (\<exists>pre msg caption s.
        fst (tWinMain no_python []) =
          pre @ [Call_RegOpenKeyEx (keys ! 1) (KEY_READ OR KEY_ENUMERATE_SUB_KEYS) 2,
                 Call_MessageBox msg caption, Call_ExitProcess s]
        \<and> snd (tWinMain no_python []) = Exited s)"
proof -
  have h1: "Call_RegOpenKeyEx (keys ! 1) (KEY_READ OR KEY_ENUMERATE_SUB_KEYS) 2
      \<in> set (fst (tWinMain no_python []))"
    by (simp add: tWinMain_no_python)
  have h2: "failed (Call_RegOpenKeyEx (keys ! 1) (KEY_READ OR KEY_ENUMERATE_SUB_KEYS) 2)"
    by (simp add: ERROR_SUCCESS_def)
  have h3: "\<not> tolerated (Call_RegOpenKeyEx (keys ! 1) (KEY_READ OR KEY_ENUMERATE_SUB_KEYS) 2)"
    by simp
  from failures_terminal [OF h1 h2 h3] h1 h2 h3 show ?thesis
    by (intro conjI)
qed

text \<open>
  Claim C2, as it is stated, lets no failure pass. On the machine with Python 2.7 under
  the second key, \<^verbatim>\<open>RegOpenKeyEx\<close> on the first key fails and so does the read of the
  \<^verbatim>\<open>PythonPath\<close> of 2.6, both with code 2, and the run goes on to its normal end.
\<close>

theorem failure_not_terminal:
  "Call_RegOpenKeyEx (keys ! 0) (KEY_READ OR KEY_ENUMERATE_SUB_KEYS) 2
     \<in> set (fst (tWinMain wow64_machine []))
   \<and> failed (Call_RegOpenKeyEx (keys ! 0) (KEY_READ OR KEY_ENUMERATE_SUB_KEYS) 2)
   \<and> Call_RegGetValue (''2.6'' @ PythonPath) MAX_PATH 2 [] \<in> set (fst (tWinMain wow64_machine []))
   \<and> failed (Call_RegGetValue (''2.6'' @ PythonPath) MAX_PATH 2 [])
   \<and> snd (tWinMain wow64_machine []) = Returned ()"
  by (simp add: tWinMain_wow64_machine find_winsync_wow64_machine ERROR_SUCCESS_def)

text \<open>
  Claim C3. Whenever \<^verbatim>\<open>CreateProcess\<close> is called, \<^verbatim>\<open>find_winsync\<close> has returned a path,
  the command line is that path followed at once by \<^verbatim>\<open>python.exe\<close> and then by
  \<^verbatim>\<open> -m winsync.run\<close>, and the working directory is that path; the call is made
  whenever the path returned leaves room for the 25 characters added; and the run does not
  depend on \<^verbatim>\<open>lpCmdLine\<close>.
\<close>

theorem command_line:
  "(\<forall>cmd cwd r. Call_CreateProcess cmd cwd r \<in> set (fst (tWinMain e lpCmdLine)) \<longrightarrow>
      (\<exists>path. snd (find_winsync e) = Returned path
        \<and> cmd = path @ ''python.exe'' @ '' -m winsync.run'' \<and> cwd = path))
   \<and> (\<forall>path. snd (find_winsync e) = Returned path \<and> length path + 25 < MAX_PATH \<longrightarrow>
        Call_CreateProcess (path @ ''python.exe'' @ '' -m winsync.run'') path
          (create_process e (path @ ''python.exe'' @ '' -m winsync.run'') path)
        \<in> set (fst (tWinMain e lpCmdLine)))
   \<and> tWinMain e lpCmdLine = tWinMain e lpCmdLine'"
proof (intro conjI allI impI)
  fix cmd cwd r
  assume "Call_CreateProcess cmd cwd r \<in> set (fst (tWinMain e lpCmdLine))"
  from tWinMain_calls [OF this]
  show "\<exists>path. snd (find_winsync e) = Returned path
      \<and> cmd = path @ ''python.exe'' @ '' -m winsync.run'' \<and> cwd = path"
    by (auto dest!: find_winsync_calls)
next
  fix path
  assume "snd (find_winsync e) = Returned path \<and> length path + 25 < MAX_PATH"
  then show "Call_CreateProcess (path @ ''python.exe'' @ '' -m winsync.run'') path
      (create_process e (path @ ''python.exe'' @ '' -m winsync.run'') path)
      \<in> set (fst (tWinMain e lpCmdLine))"
    by (subst tWinMain_unfold) simp
next
  show "tWinMain e lpCmdLine = tWinMain e lpCmdLine'"
    by (simp add: tWinMain_def)
qed

text \<open>The machine with Python 2.7 under the second key.\<close>

theorem command_line_witness:
  "Call_CreateProcess (Python27 @ ''python.exe'' @ '' -m winsync.run'') Python27 (Inr (100, 104))
     \<in> set (fst (tWinMain wow64_machine []))
   \<and> (\<exists>path. snd (find_winsync wow64_machine) = Returned path
        \<and> Python27 @ ''python.exe'' @ '' -m winsync.run'' = path @ ''python.exe'' @ '' -m winsync.run''
        \<and> Python27 = path)
   \<and> tWinMain wow64_machine [] = tWinMain wow64_machine ''/quiet''"
proof -
  have h: "Call_CreateProcess (Python27 @ ''python.exe'' @ '' -m winsync.run'') Python27
      (Inr (100, 104)) \<in> set (fst (tWinMain wow64_machine []))"
    by (simp add: tWinMain_wow64_machine)
  from command_line [of wow64_machine "[]" "''/quiet''"] h show ?thesis
    by blast
qed

text \<open>
  Claim C4. \<^verbatim>\<open>find_winsync\<close> opens \<open>keys ! 0\<close> under \<^verbatim>\<open>HKEY_LOCAL_MACHINE\<close>, and
  \<open>keys ! 1\<close> only when that failed; these are all the keys it opens. The scan is the
  loop on the key that opened, and when neither opens, the run is the two calls, the message
  box and \<^verbatim>\<open>ExitProcess\<close> with the code of the second call.
\<close>

theorem find_winsync_registry_locations:
  "opens (fst (find_winsync e)) =
     (if fst (hklm e (keys ! 0)) = ERROR_SUCCESS then [(keys ! 0, ERROR_SUCCESS)]
      else [(keys ! 0, fst (hklm e (keys ! 0))), (keys ! 1, fst (hklm e (keys ! 1)))])
   \<and> (fst (hklm e (keys ! 0)) = ERROR_SUCCESS \<longrightarrow>
        find_winsync e =
          after [Call_RegOpenKeyEx (keys ! 0) (KEY_READ OR KEY_ENUMERATE_SUB_KEYS) ERROR_SUCCESS]
            (enum_loop e (snd (hklm e (keys ! 0))) 0 MAX_PATH))
   \<and> (fst (hklm e (keys ! 0)) \<noteq> ERROR_SUCCESS \<and> fst (hklm e (keys ! 1)) = ERROR_SUCCESS \<longrightarrow>
        find_winsync e =
          after [Call_RegOpenKeyEx (keys ! 0) (KEY_READ OR KEY_ENUMERATE_SUB_KEYS)
                   (fst (hklm e (keys ! 0))),
                 Call_RegOpenKeyEx (keys ! 1) (KEY_READ OR KEY_ENUMERATE_SUB_KEYS) ERROR_SUCCESS]
            (enum_loop e (snd (hklm e (keys ! 1))) 0 MAX_PATH))
   \<and> (fst (hklm e (keys ! 0)) \<noteq> ERROR_SUCCESS \<and> fst (hklm e (keys ! 1)) \<noteq> ERROR_SUCCESS \<longrightarrow>
        find_winsync e =
          ([Call_RegOpenKeyEx (keys ! 0) (KEY_READ OR KEY_ENUMERATE_SUB_KEYS)
              (fst (hklm e (keys ! 0))),
            Call_RegOpenKeyEx (keys ! 1) (KEY_READ OR KEY_ENUMERATE_SUB_KEYS)
              (fst (hklm e (keys ! 1))),
            Call_MessageBox (''RegOpenKeyEx failed with error ''
                @ printf_d (fst (hklm e (keys ! 1))) @ '': ''
                @ system_message e (fst (hklm e (keys ! 1)))) ''Error'',
            Call_ExitProcess (fst (hklm e (keys ! 1)))],
           Exited (fst (hklm e (keys ! 1)))))"
  by (simp add: find_winsync_unfold after_def error_code_exit_def)

text \<open>The machine with neither key.\<close>

theorem find_winsync_registry_locations_witness:
  "fst (hklm no_python (keys ! 0)) \<noteq> ERROR_SUCCESS \<and> fst (hklm no_python (keys ! 1)) \<noteq> ERROR_SUCCESS
   \<and> find_winsync no_python =
       ([Call_RegOpenKeyEx (keys ! 0) (KEY_READ OR KEY_ENUMERATE_SUB_KEYS) 2,
         Call_RegOpenKeyEx (keys ! 1) (KEY_READ OR KEY_ENUMERATE_SUB_KEYS) 2,
         Call_MessageBox
           ''RegOpenKeyEx failed with error 2: The system cannot find the file specified.''
           ''Error'',
         Call_ExitProcess 2],
        Exited 2)"
  using find_winsync_registry_locations [of no_python]
  by (simp add: no_python_def ERROR_SUCCESS_def printf_d_def decimal.simps)



text \<open>
  Claim C6. When \<^verbatim>\<open>find_winsync\<close> returns, the command line fits and the process is created,
  the calls of the run are those of \<^verbatim>\<open>find_winsync\<close>, none of which creates, awaits or
  closes anything, then the three string calls that build the command line, then
  \<^verbatim>\<open>CreateProcess\<close>, then \<^verbatim>\<open>WaitForSingleObject\<close> on the handle of the process with
  \<^verbatim>\<open>INFINITE\<close>, and no other process is created or awaited. After
  \<^verbatim>\<open>WAIT_OBJECT_0\<close> the handle of the process is closed, then that of the thread; after
  \<^verbatim>\<open>WAIT_ABANDONED\<close>, \<^verbatim>\<open>WAIT_TIMEOUT\<close> or \<^verbatim>\<open>WAIT_FAILED\<close> only the message box and
  \<^verbatim>\<open>ExitProcess\<close> follow.
\<close>

theorem sequential_flow:
  assumes "snd (find_winsync e) = Returned path"
    and "length path + 25 < MAX_PATH"
    and "create_process e (path @ ''python.exe'' @ '' -m winsync.run'') path
         = Inr (hProcess, hThread)"
    and "wait_for_single_object e hProcess INFINITE = (w, last_error)"
  shows "\<exists>rest.
     fst (tWinMain e lpCmdLine) =
       fst (find_winsync e) @
       [Call_tcscpy_s MAX_PATH path True,
        Call_tcscat_s MAX_PATH path ''python.exe'' True,
        Call_tcscat_s MAX_PATH (path @ ''python.exe'') '' -m winsync.run'' True,
        Call_CreateProcess (path @ ''python.exe'' @ '' -m winsync.run'') path
          (Inr (hProcess, hThread)),
        Call_WaitForSingleObject hProcess INFINITE w last_error] @ rest
     \<and> (\<forall>c\<in>set (fst (find_winsync e)). \<not> process_call c)
     \<and> (\<forall>c\<in>set rest. \<forall>cmd cwd r h ms ret err.
           c \<noteq> Call_CreateProcess cmd cwd r \<and> c \<noteq> Call_WaitForSingleObject h ms ret err)
     \<and> (w = WAIT_OBJECT_0 \<longrightarrow>
          (\<exists>more. rest = Call_CloseHandle hProcess (close_handle e hProcess) # more
            \<and> (close_handle e hProcess = None \<longrightarrow>
                 (\<exists>more'. more = Call_CloseHandle hThread (close_handle e hThread) # more'))))
     \<and> (w = WAIT_ABANDONED \<or> w = WAIT_TIMEOUT \<or> w = WAIT_FAILED \<longrightarrow>
          (\<exists>msg caption s. rest = [Call_MessageBox msg caption, Call_ExitProcess s]
            \<and> snd (tWinMain e lpCmdLine) = Exited s))"
proof -
  have quiet: "\<forall>c\<in>set (fst (find_winsync e)). \<not> process_call c"
    by (auto dest!: find_winsync_calls simp: scan_call_process_call)
  from assms quiet show ?thesis
    apply (subst tWinMain_unfold)
    apply (subst tWinMain_unfold)
    apply (simp add: after_def error_code_exit_def msg_exit_def)
    apply (auto split: option.splits)
    done
qed

text \<open>The machine with Python 2.7 under the second key, where the wait ends normally.\<close>

theorem sequential_flow_witness:
  "snd (find_winsync wow64_machine) = Returned Python27
   \<and> length Python27 + 25 < MAX_PATH
   \<and> create_process wow64_machine (Python27 @ ''python.exe'' @ '' -m winsync.run'') Python27
       = Inr (100, 104)
   \<and> wait_for_single_object wow64_machine 100 INFINITE = (WAIT_OBJECT_0, 0)
   \<and> (\<exists>rest. fst (tWinMain wow64_machine []) =
       fst (find_winsync wow64_machine) @
       [Call_tcscpy_s MAX_PATH Python27 True,
        Call_tcscat_s MAX_PATH Python27 ''python.exe'' True,
        Call_tcscat_s MAX_PATH (Python27 @ ''python.exe'') '' -m winsync.run'' True,
        Call_CreateProcess (Python27 @ ''python.exe'' @ '' -m winsync.run'') Python27
          (Inr (100, 104)),
        Call_WaitForSingleObject 100 INFINITE WAIT_OBJECT_0 0] @ rest
       \<and> (\<exists>more. rest = Call_CloseHandle 100 (close_handle wow64_machine 100) # more))"
proof -
  have h1: "snd (find_winsync wow64_machine) = Returned Python27"
    by (simp add: find_winsync_wow64_machine)
  have h2: "length Python27 + 25 < MAX_PATH"
    by (simp add: Python27_def MAX_PATH_def)
  have h3: "create_process wow64_machine (Python27 @ ''python.exe'' @ '' -m winsync.run'') Python27
       = Inr (100, 104)"
    by (simp add: wow64_machine_def)
  have h4: "wait_for_single_object wow64_machine 100 INFINITE = (WAIT_OBJECT_0, 0)"
    by (simp add: wow64_machine_def)
  from sequential_flow [OF h1 h2 h3 h4, of "[]"] h1 h2 h3 h4 show ?thesis
    by blast
qed



text \<open>
  Claim C8. In every run, each \<^verbatim>\<open>_tcscpy_s\<close> and \<^verbatim>\<open>_tcscat_s\<close> is given the capacity
  \<^verbatim>\<open>MAX_PATH\<close> and stores its result exactly when the result and its terminating null fit
  in \<^verbatim>\<open>MAX_PATH\<close> characters; each \<^verbatim>\<open>RegEnumKeyEx\<close> is offered \<^verbatim>\<open>MAX_PATH\<close>
  characters and a name it stores fits in them; each \<^verbatim>\<open>RegGetValue\<close> is offered at most
  \<^verbatim>\<open>MAX_PATH\<close> bytes and a string it stores fits in what was offered.
\<close>

theorem buffer_writes_bounded: "\<forall>c\<in>set (fst (tWinMain e lpCmdLine)). bounded c"
proof
  fix c assume "c \<in> set (fst (tWinMain e lpCmdLine))"
  from tWinMain_calls [OF this] show "bounded c"
    by (auto dest!: find_winsync_calls simp: scan_call_bounded MAX_PATH_def)
qed

text \<open>The read of \<^verbatim>\<open>InstallPath\<close>, offered 32 bytes, stores 12 characters.\<close>

theorem buffer_writes_bounded_witness:
  "Call_RegGetValue (''2.7'' @ InstallPath) 32 ERROR_SUCCESS Python27
     \<in> set (fst (tWinMain wow64_machine []))
   \<and> bounded (Call_RegGetValue (''2.7'' @ InstallPath) 32 ERROR_SUCCESS Python27)"
proof -
  have h: "Call_RegGetValue (''2.7'' @ InstallPath) 32 ERROR_SUCCESS Python27
      \<in> set (fst (tWinMain wow64_machine []))"
    by (simp add: tWinMain_wow64_machine find_winsync_wow64_machine)
  from h buffer_writes_bounded [of wow64_machine "[]", THEN bspec, OF h] show ?thesis
    by (intro conjI)
qed

text \<open>
  Claim C9 fails on the code. \<^verbatim>\<open>path_size\<close> is set once, on line 86, and every
  \<^verbatim>\<open>RegGetValue\<close> overwrites it; line 150 resets \<^verbatim>\<open>name_size\<close> only. On a machine
  with Python 2.7 and 3.3, winsync being installed in 3.3, the read of the
  \<^verbatim>\<open>PythonPath\<close> of 2.7 leaves 32 in \<^verbatim>\<open>path_size\<close>, the read of that of 3.3 is
  offered these 32 bytes, needs 66, and returns \<^verbatim>\<open>ERROR_MORE_DATA\<close>: the launcher exits
  with status 234.
\<close>

theorem path_size_not_restored:
  "find_winsync two_pythons =
     ([Call_RegOpenKeyEx (keys ! 0) (KEY_READ OR KEY_ENUMERATE_SUB_KEYS) ERROR_SUCCESS,
       Call_RegEnumKeyEx 0 MAX_PATH ERROR_SUCCESS ''2.7'',
       Call_tcscpy_s MAX_PATH ''2.7'' True,
       Call_tcscat_s MAX_PATH ''2.7'' PythonPath True,
       Call_RegGetValue (''2.7'' @ PythonPath) MAX_PATH ERROR_SUCCESS Python27_Lib,
       Call_tcscpy_s MAX_PATH Python27_Lib True,
       Call_tcscat_s MAX_PATH Python27_Lib site_packages_winsync True,
       Call_GetFileAttributes (Python27_Lib @ site_packages_winsync) INVALID_FILE_ATTRIBUTES,
       Call_RegEnumKeyEx 1 MAX_PATH ERROR_SUCCESS ''3.3'',
       Call_tcscpy_s MAX_PATH ''3.3'' True,
       Call_tcscat_s MAX_PATH ''3.3'' PythonPath True,
       Call_RegGetValue (''3.3'' @ PythonPath) 32 ERROR_MORE_DATA [],
       Call_MessageBox ''RegGetValue failed with error 234: More data is available.'' ''Error'',
       Call_ExitProcess 234],
      Exited 234)
   \<and> has_winsync two_pythons two_pythons_key ''3.3''"
  using find_winsync_two_pythons has_winsync_33 by (rule conjI)

text \<open>
  Claim C10, as the code has it. \<^verbatim>\<open>find_winsync\<close> ends in one of three ways: it returns,
  its last call being the read of an \<^verbatim>\<open>InstallPath\<close> subkey that stored the path returned,
  for a name of the key that opened whose \<^verbatim>\<open>PythonPath\<close> has winsync; or the process
  ends with a message box and \<^verbatim>\<open>ExitProcess\<close>; or it ends in the invalid-parameter
  handler, the last call being a \<^verbatim>\<open>_tcscpy_s\<close> or \<^verbatim>\<open>_tcscat_s\<close> whose result did not
  fit. \<^verbatim>\<open>_tWinMain\<close> makes no call of its own unless \<^verbatim>\<open>find_winsync\<close> returned, and
  its first call then copies the path returned.
\<close>

theorem find_winsync_returns_on_success:
  "((\<exists>path pre sub cb root keyname.
       find_winsync e = (pre @ [Call_RegGetValue sub cb ERROR_SUCCESS path], Returned path)
       \<and> suffix InstallPath sub \<and> opened_key e = Some root \<and> keyname \<in> set (subkeys root)
       \<and> has_winsync e root keyname
       \<and> default_value root (keyname @ InstallPath) = (ERROR_SUCCESS, path))
    \<or> (\<exists>s pre msg caption.
         find_winsync e = (pre @ [Call_MessageBox msg caption, Call_ExitProcess s], Exited s))
    \<or> (\<exists>pre c. find_winsync e = (pre @ [c], Invalid_parameter) \<and> rejected c))
   \<and> ((\<forall>path. snd (find_winsync e) \<noteq> Returned path) \<longrightarrow>
        fst (tWinMain e lpCmdLine) = fst (find_winsync e))
   \<and> (\<forall>path. snd (find_winsync e) = Returned path \<longrightarrow>
        (\<exists>rest. fst (tWinMain e lpCmdLine)
           = fst (find_winsync e) @ Call_tcscpy_s MAX_PATH path (length path < MAX_PATH) # rest))"
proof (intro conjI)
  show "(\<exists>path pre sub cb root keyname.
       find_winsync e = (pre @ [Call_RegGetValue sub cb ERROR_SUCCESS path], Returned path)
       \<and> suffix InstallPath sub \<and> opened_key e = Some root \<and> keyname \<in> set (subkeys root)
       \<and> has_winsync e root keyname
       \<and> default_value root (keyname @ InstallPath) = (ERROR_SUCCESS, path))
    \<or> (\<exists>s pre msg caption.
         find_winsync e = (pre @ [Call_MessageBox msg caption, Call_ExitProcess s], Exited s))
    \<or> (\<exists>pre c. find_winsync e = (pre @ [c], Invalid_parameter) \<and> rejected c)"
  proof (cases "snd (find_winsync e)")
    case (Returned path)
    from find_winsync_last [OF Returned] obtain pre sub cb where
      t: "fst (find_winsync e) = pre @ [Call_RegGetValue sub cb ERROR_SUCCESS path]"
      and s: "suffix InstallPath sub"
      by blast
    from find_winsync_Returned [OF Returned] obtain root k where
      k: "opened_key e = Some root" "k < length (subkeys root)"
        "has_winsync e root (subkeys root ! k)"
        "default_value root (subkeys root ! k @ InstallPath) = (ERROR_SUCCESS, path)"
      unfolding first_install_def by blast
    from t Returned have
      "find_winsync e = (pre @ [Call_RegGetValue sub cb ERROR_SUCCESS path], Returned path)"
      by (simp add: prod_eq_iff)
    moreover from k(2) have "subkeys root ! k \<in> set (subkeys root)" by simp
    ultimately show ?thesis using s k by blast
  next
    case (Exited s)
    with ends_well_find_winsync [of e] obtain pre c msg caption where
      "fst (find_winsync e) = pre @ [c, Call_MessageBox msg caption, Call_ExitProcess s]"
      by (auto simp: ends_well_def)
    with Exited have
      "find_winsync e = ((pre @ [c]) @ [Call_MessageBox msg caption, Call_ExitProcess s], Exited s)"
      by (simp add: prod_eq_iff)
    then show ?thesis by blast
  next
    case Invalid_parameter
    with ends_well_find_winsync [of e] obtain pre c where
      "fst (find_winsync e) = pre @ [c]" "rejected c"
      by (auto simp: ends_well_def)
    with Invalid_parameter have "find_winsync e = (pre @ [c], Invalid_parameter) \<and> rejected c"
      by (simp add: prod_eq_iff)
    then show ?thesis by blast
  qed
next
  show "(\<forall>path. snd (find_winsync e) \<noteq> Returned path) \<longrightarrow>
        fst (tWinMain e lpCmdLine) = fst (find_winsync e)"
    unfolding tWinMain_unfold [of e lpCmdLine]
    by (cases "snd (find_winsync e)") simp_all
next
  show "\<forall>path. snd (find_winsync e) = Returned path \<longrightarrow>
        (\<exists>rest. fst (tWinMain e lpCmdLine)
           = fst (find_winsync e) @ Call_tcscpy_s MAX_PATH path (length path < MAX_PATH) # rest)"
    unfolding tWinMain_unfold [of e lpCmdLine]
    by (auto simp: after_def)
qed

text \<open>
  The machine whose only subkey has a name of 249 characters, and the machine with
  Python 2.7 under the second key.
\<close>

theorem find_winsync_returns_on_success_witness:
  "(\<forall>path. snd (find_winsync long_name) \<noteq> Returned path)
   \<and> fst (tWinMain long_name []) = fst (find_winsync long_name)
   \<and> snd (find_winsync wow64_machine) = Returned Python27
   \<and> (\<exists>rest. fst (tWinMain wow64_machine [])
           = fst (find_winsync wow64_machine)
             @ Call_tcscpy_s MAX_PATH Python27 (length Python27 < MAX_PATH) # rest)"
proof -
  have h1: "\<forall>path. snd (find_winsync long_name) \<noteq> Returned path"
    by (simp add: find_winsync_long_name)
  have h2: "snd (find_winsync wow64_machine) = Returned Python27"
    by (simp add: find_winsync_wow64_machine)
  from find_winsync_returns_on_success [of long_name "[]"] h1
  have "fst (tWinMain long_name []) = fst (find_winsync long_name)"
    by blast
  moreover from find_winsync_returns_on_success [of wow64_machine "[]"] h2
  have "\<exists>rest. fst (tWinMain wow64_machine [])
           = fst (find_winsync wow64_machine)
             @ Call_tcscpy_s MAX_PATH Python27 (length Python27 < MAX_PATH) # rest"
    by blast
  ultimately show ?thesis using h1 h2 by blast
qed

text \<open>
  Claim C10, as it is stated, knows two ends only. A subkey name of 249 characters fits
  the buffer, and with \<^verbatim>\<open>\PythonPath\<close> appended it needs 261: \<^verbatim>\<open>_tcscat_s\<close> on line
  110 invokes the invalid-parameter handler, with no message box and no
  \<^verbatim>\<open>ExitProcess\<close>.
\<close>

theorem ended_in_invalid_parameter_handler:
  "find_winsync long_name =
     ([Call_RegOpenKeyEx (keys ! 0) (KEY_READ OR KEY_ENUMERATE_SUB_KEYS) ERROR_SUCCESS,
       Call_RegEnumKeyEx 0 MAX_PATH ERROR_SUCCESS (replicate 249 (CHR ''x'')),
       Call_tcscpy_s MAX_PATH (replicate 249 (CHR ''x'')) True,
       Call_tcscat_s MAX_PATH (replicate 249 (CHR ''x'')) PythonPath False],
      Invalid_parameter)"
  by (rule find_winsync_long_name)


end
